theory Spec2Isabelle
  imports Main "HOL-Library.Char_ord" "HOL-Library.List_Lexorder"
begin

section \<open>Byte strings and the string helpers the code uses\<close>

text \<open>
  Go strings and byte slices are byte sequences; both are modelled as \<open>string\<close>.
  The helpers below are the calls of package \<open>strings\<close> and \<open>fmt\<close> at the
  arguments the code passes: separator \<open>/\<close>, limit 2, verb \<open>%d\<close>.
\<close>

type_synonym bytes = string

definition HasPrefix :: "string \<Rightarrow> string \<Rightarrow> bool" where
  "HasPrefix s p \<longleftrightarrow> take (length p) s = p"

definition TrimPrefix :: "string \<Rightarrow> string \<Rightarrow> string" where
  "TrimPrefix s p = (if HasPrefix s p then drop (length p) s else s)"

text \<open>\<open>strings.SplitN(s, "/", 2)\<close>: one part when there is no separator, else two.\<close>

definition SplitN2 :: "string \<Rightarrow> string list" where
  "SplitN2 s =
     (if CHR ''/'' \<in> set s
      then [takeWhile (\<lambda>c. c \<noteq> CHR ''/'') s, tl (dropWhile (\<lambda>c. c \<noteq> CHR ''/'') s)]
      else [s])"

text \<open>\<open>strings.ReplaceAll(key, "/", "-")\<close>.\<close>

definition ReplaceAll_slash :: "string \<Rightarrow> string" where
  "ReplaceAll_slash s = map (\<lambda>c. if c = CHR ''/'' then CHR ''-'' else c) s"

function decimal :: "nat \<Rightarrow> string" where
  "decimal n =
     (if n < 10 then [''0123456789'' ! n]
      else decimal (n div 10) @ [''0123456789'' ! (n mod 10)])"
  by pat_completeness auto
termination
  by (relation "measure id") auto

declare decimal.simps [simp del]

text \<open>\<open>fmt.Sprintf("%d", i)\<close> for a signed integer.\<close>

definition Sprintf_d :: "int \<Rightarrow> string" where
  "Sprintf_d i = (if i < 0 then CHR ''-'' # decimal (nat (- i)) else decimal (nat i))"

section \<open>Media types and annotation keys (internal/oci/mediatype.go)\<close>

abbreviation ArtifactTypeResource :: string where
  "ArtifactTypeResource \<equiv> ''application/vnd.gitops-squared.resource.v1''"

abbreviation MediaTypeResourceYAML :: string where
  "MediaTypeResourceYAML \<equiv> ''application/vnd.gitops-squared.manifest.v1+yaml''"

abbreviation MediaTypeFluxContent :: string where
  "MediaTypeFluxContent \<equiv> ''application/vnd.cncf.flux.content.v1.tar+gzip''"

abbreviation MediaTypeFluxConfig :: string where
  "MediaTypeFluxConfig \<equiv> ''application/vnd.cncf.flux.config.v1+json''"

abbreviation AnnotationResourceName :: string where
  "AnnotationResourceName \<equiv> ''io.gitops-squared.resource.name''"

abbreviation AnnotationResourceNamespace :: string where
  "AnnotationResourceNamespace \<equiv> ''io.gitops-squared.resource.namespace''"

abbreviation AnnotationResourceVersion :: string where
  "AnnotationResourceVersion \<equiv> ''io.gitops-squared.resource.version''"

abbreviation AnnotationResourceDeleted :: string where
  "AnnotationResourceDeleted \<equiv> ''io.gitops-squared.resource.deleted''"

text \<open>The two keys of the OCI image specification that the client sets.\<close>

abbreviation AnnotationTitle :: string where
  "AnnotationTitle \<equiv> ''org.opencontainers.image.title''"

abbreviation AnnotationCreated :: string where
  "AnnotationCreated \<equiv> ''org.opencontainers.image.created''"

section \<open>The registry as the client sees it\<close>

text \<open>
  A descriptor is kept together with the blob it addresses, and a tag maps to the manifest
  it resolves to: a digest is represented by the content it identifies. The registry
  records which repositories exist, in the order its catalog lists them, and for every
  repository which manifest each tag points at.
\<close>

record descriptor =
  d_mediaType :: string
  d_data :: bytes
  d_annotations :: "string \<rightharpoonup> string"

record manifest =
  m_artifactType :: string
  m_config :: descriptor
  m_layers :: "descriptor list"
  m_annotations :: "string \<rightharpoonup> string"

datatype digest = Digest manifest

record registry =
  repositories :: "string list"
  tags :: "string \<Rightarrow> string \<rightharpoonup> manifest"

definition empty_registry :: registry where
  "empty_registry = \<lparr>repositories = [], tags = (\<lambda>_. Map.empty)\<rparr>"

text \<open>
  Writing a manifest under a tag of a repository (the effect of \<open>oras.Copy\<close> to the remote
  and of \<open>repo.Tag\<close>): the repository is created on first use, the tag is set or moved.
\<close>

definition put_tag :: "string \<Rightarrow> string \<Rightarrow> manifest \<Rightarrow> registry \<Rightarrow> registry" where
  "put_tag path tag m reg =
     \<lparr>repositories =
        (if path \<in> set (repositories reg) then repositories reg
         else repositories reg @ [path]),
      tags = (tags reg)(path := (tags reg path)(tag \<mapsto> m))\<rparr>"

text \<open>
  Every error site of the client is one constructor. The same type names the external
  call that fails during one invocation (\<open>None\<close>: every call to the registry and to the
  in-memory store succeeds).
\<close>

datatype err =
    ErrRepoRef | ErrPushBytes | ErrPushConfig | ErrPack | ErrStoreTag | ErrCopy
  | ErrTagLatest | ErrFetchManifest | ErrReadManifest | ErrParseManifest | ErrNoLayers
  | ErrFetchLayer | ErrReadLayer | ErrNewRegistry | ErrListRepos | ErrTarball | ErrYAML

section \<open>Client (internal/oci/client.go)\<close>

record client =
  registryHost :: string
  repoPrefix :: string

record ResourceInfo =
  info_Repository :: string
  info_Namespace :: string
  info_Name :: string
  info_Digest :: string
  info_Version :: string

definition NewClient :: "string \<Rightarrow> string \<Rightarrow> client" where
  "NewClient host prefix = \<lparr>registryHost = host, repoPrefix = prefix\<rparr>"

definition resourceRepoPath :: "client \<Rightarrow> string \<Rightarrow> string \<Rightarrow> string" where
  "resourceRepoPath c namespace name = repoPrefix c @ ''/'' @ namespace @ ''/'' @ name"

text \<open>
  What one push reads from its environment: the clock, read once for the version tag
  (Unix seconds) and once for the creation annotation (RFC 3339 text), and the call that
  fails, if any.
\<close>

record push_env =
  pe_now :: int
  pe_created :: string
  pe_fault :: "err option"

text \<open>The descriptor \<open>oras.PackManifest\<close> uses when no config is given.\<close>

definition empty_config :: descriptor where
  "empty_config =
     \<lparr>d_mediaType = ''application/vnd.oci.empty.v1+json'', d_data = ''{}'',
      d_annotations = Map.empty\<rparr>"

definition PushResource ::
  "client \<Rightarrow> push_env \<Rightarrow> string \<Rightarrow> string \<Rightarrow> bytes \<Rightarrow> registry
   \<Rightarrow> (err + digest \<times> string) \<times> registry" where
  "PushResource c env namespace name manifest reg =
     (let repoPath = resourceRepoPath c namespace name in
      if pe_fault env = Some ErrRepoRef then (Inl ErrRepoRef, reg) else
      let version = ''v'' @ Sprintf_d (pe_now env) in
      if pe_fault env = Some ErrPushBytes then (Inl ErrPushBytes, reg) else
      let layerDesc =
            \<lparr>d_mediaType = MediaTypeResourceYAML, d_data = manifest,
             d_annotations =
               [AnnotationTitle \<mapsto> ''platformresource.yaml'',
                AnnotationResourceName \<mapsto> name,
                AnnotationResourceNamespace \<mapsto> namespace,
                AnnotationResourceVersion \<mapsto> version]\<rparr>;
          manifestDesc =
            \<lparr>m_artifactType = ArtifactTypeResource, m_config = empty_config,
             m_layers = [layerDesc],
             m_annotations =
               [AnnotationCreated \<mapsto> pe_created env,
                AnnotationResourceName \<mapsto> name,
                AnnotationResourceNamespace \<mapsto> namespace]\<rparr> in
      if pe_fault env = Some ErrPack then (Inl ErrPack, reg) else
      if pe_fault env = Some ErrStoreTag then (Inl ErrStoreTag, reg) else
      if pe_fault env = Some ErrCopy then (Inl ErrCopy, reg) else
      let reg1 = put_tag repoPath version manifestDesc reg in
      if pe_fault env = Some ErrTagLatest then (Inl ErrTagLatest, reg1) else
      (Inr (Digest manifestDesc, version), put_tag repoPath ''latest'' manifestDesc reg1))"

definition PushTombstone ::
  "client \<Rightarrow> push_env \<Rightarrow> string \<Rightarrow> string \<Rightarrow> registry
   \<Rightarrow> (err + digest \<times> string) \<times> registry" where
  "PushTombstone c env namespace name reg =
     (let repoPath = resourceRepoPath c namespace name in
      if pe_fault env = Some ErrRepoRef then (Inl ErrRepoRef, reg) else
      let version = ''v'' @ Sprintf_d (pe_now env);
          tombstone = ''# deleted: '' @ namespace @ ''/'' @ name @ [CHR 0x0A] in
      if pe_fault env = Some ErrPushBytes then (Inl ErrPushBytes, reg) else
      let layerDesc =
            \<lparr>d_mediaType = MediaTypeResourceYAML, d_data = tombstone,
             d_annotations =
               [AnnotationResourceName \<mapsto> name,
                AnnotationResourceNamespace \<mapsto> namespace,
                AnnotationResourceDeleted \<mapsto> ''true'',
                AnnotationResourceVersion \<mapsto> version]\<rparr>;
          manifestDesc =
            \<lparr>m_artifactType = ArtifactTypeResource, m_config = empty_config,
             m_layers = [layerDesc],
             m_annotations =
               [AnnotationCreated \<mapsto> pe_created env,
                AnnotationResourceDeleted \<mapsto> ''true'']\<rparr> in
      if pe_fault env = Some ErrPack then (Inl ErrPack, reg) else
      if pe_fault env = Some ErrStoreTag then (Inl ErrStoreTag, reg) else
      if pe_fault env = Some ErrCopy then (Inl ErrCopy, reg) else
      let reg1 = put_tag repoPath version manifestDesc reg in
      if pe_fault env = Some ErrTagLatest then (Inl ErrTagLatest, reg1) else
      (Inr (Digest manifestDesc, version), put_tag repoPath ''latest'' manifestDesc reg1))"

text \<open>
  \<open>PullResource\<close>: resolve the reference, read the manifest, take its first layer and
  merge the annotations, the layer's entries overriding the manifest's. A reference is
  resolved as a tag (the code only ever passes \<open>latest\<close>); an unknown tag is the
  registry's not-found answer to \<open>FetchReference\<close>.
\<close>

definition PullResource ::
  "client \<Rightarrow> err option \<Rightarrow> string \<Rightarrow> string \<Rightarrow> string \<Rightarrow> registry
   \<Rightarrow> err + bytes \<times> (string \<rightharpoonup> string)" where
  "PullResource c fault namespace name reference reg =
     (let repoPath = resourceRepoPath c namespace name in
      if fault = Some ErrRepoRef then Inl ErrRepoRef else
      if fault = Some ErrFetchManifest then Inl ErrFetchManifest else
      case tags reg repoPath reference of
        None \<Rightarrow> Inl ErrFetchManifest
      | Some manifest \<Rightarrow>
          if fault = Some ErrReadManifest then Inl ErrReadManifest else
          if fault = Some ErrParseManifest then Inl ErrParseManifest else
          (case m_layers manifest of
             [] \<Rightarrow> Inl ErrNoLayers
           | layerDesc # _ \<Rightarrow>
               if fault = Some ErrFetchLayer then Inl ErrFetchLayer else
               if fault = Some ErrReadLayer then Inl ErrReadLayer else
               Inr (d_data layerDesc, m_annotations manifest ++ d_annotations layerDesc)))"

text \<open>The body of the callback of \<open>ListResourceRepos\<close>, over the listed names.\<close>

fun collect_repos :: "client \<Rightarrow> string list \<Rightarrow> ResourceInfo list" where
  "collect_repos c [] = []"
| "collect_repos c (r # repoNames) =
     (if \<not> HasPrefix r (repoPrefix c @ ''/'') then collect_repos c repoNames
      else
        let suffix = TrimPrefix r (repoPrefix c @ ''/'');
            parts = SplitN2 suffix in
        if length parts \<noteq> 2 then collect_repos c repoNames
        else
          \<lparr>info_Repository = r, info_Namespace = parts ! 0, info_Name = parts ! 1,
           info_Digest = [], info_Version = []\<rparr> # collect_repos c repoNames)"

definition ListResourceRepos :: "client \<Rightarrow> err option \<Rightarrow> registry \<Rightarrow> err + ResourceInfo list" where
  "ListResourceRepos c fault reg =
     (if fault = Some ErrNewRegistry then Inl ErrNewRegistry else
      if fault = Some ErrListRepos then Inl ErrListRepos else
      Inr (collect_repos c (repositories reg)))"

text \<open>What one publication of the catalog reads from its environment.\<close>

record catalog_env =
  ce_order :: "string list"
  ce_created :: string
  ce_fault :: "err option"

definition PushCatalog :: "client \<Rightarrow> catalog_env \<Rightarrow> bytes \<Rightarrow> registry \<Rightarrow> (err + digest) \<times> registry" where
  "PushCatalog c env tarGzBytes reg =
     (let repoPath = ''gitops-squared/catalog'' in
      if ce_fault env = Some ErrRepoRef then (Inl ErrRepoRef, reg) else
      if ce_fault env = Some ErrPushBytes then (Inl ErrPushBytes, reg) else
      let layerDesc =
            \<lparr>d_mediaType = MediaTypeFluxContent, d_data = tarGzBytes,
             d_annotations = Map.empty\<rparr> in
      if ce_fault env = Some ErrPushConfig then (Inl ErrPushConfig, reg) else
      let configDesc =
            \<lparr>d_mediaType = MediaTypeFluxConfig, d_data = ''{}'',
             d_annotations = Map.empty\<rparr>;
          manifestDesc =
            \<lparr>m_artifactType = MediaTypeFluxConfig, m_config = configDesc,
             m_layers = [layerDesc],
             m_annotations = [AnnotationCreated \<mapsto> ce_created env]\<rparr> in
      if ce_fault env = Some ErrPack then (Inl ErrPack, reg) else
      if ce_fault env = Some ErrStoreTag then (Inl ErrStoreTag, reg) else
      if ce_fault env = Some ErrCopy then (Inl ErrCopy, reg) else
      (Inr (Digest manifestDesc), put_tag repoPath ''latest'' manifestDesc reg))"

section \<open>Resource model (internal/model/resource.go)\<close>

record ResourceSpec =
  spec_Type :: string
  spec_Size :: string
  spec_Region :: string
  spec_Replicas :: int

record ResourceRequest =
  req_Name :: string
  req_Spec :: ResourceSpec

record ResourceResponse =
  rr_Name :: string
  rr_Version :: string
  rr_Digest :: "digest option"
  rr_Repository :: string
  rr_Spec :: "ResourceSpec option"
  rr_CreatedAt :: string
  rr_Deleted :: bool

text \<open>The two maps of the metadata are listed in key order, the order they are marshalled in.\<close>

record PlatformResourceMetadata =
  md_Name :: string
  md_Namespace :: string
  md_Labels :: "(string \<times> string) list"
  md_Annotations :: "(string \<times> string) list"

record PlatformResource =
  pr_APIVersion :: string
  pr_Kind :: string
  pr_Metadata :: PlatformResourceMetadata
  pr_Spec :: ResourceSpec

definition validTypes :: "string \<Rightarrow> bool" where
  "validTypes t \<longleftrightarrow> t \<in> {''vm'', ''database'', ''bucket''}"

definition validSizes :: "string \<Rightarrow> bool" where
  "validSizes t \<longleftrightarrow> t \<in> {''small'', ''medium'', ''large''}"

datatype validation_error = NameRequired | InvalidType | InvalidSize | ReplicasRange

definition Validate :: "ResourceRequest \<Rightarrow> validation_error option" where
  "Validate r =
     (if req_Name r = [] then Some NameRequired
      else if \<not> validTypes (spec_Type (req_Spec r)) then Some InvalidType
      else if \<not> validSizes (spec_Size (req_Spec r)) then Some InvalidSize
      else if spec_Replicas (req_Spec r) > 10 then Some ReplicasRange
      else None)"

text \<open>
  The two encoders the code calls from libraries are parameters of the model:
  \<open>yaml.Marshal\<close> on a \<open>PlatformResource\<close>, and the tar writer inside the gzip writer,
  as the function from the members written to the bytes produced. Either may fail.
\<close>

record tar_file =
  tf_Name :: string
  tf_Mode :: nat
  tf_Size :: int
  tf_Body :: bytes

record codec =
  yaml_Marshal :: "PlatformResource \<Rightarrow> err + bytes"
  tar_gzip :: "tar_file list \<Rightarrow> err + bytes"

text \<open>
  \<open>ToKubernetesYAML\<close> has a pointer receiver: the defaulted replica count stays in the
  request, which is returned with the bytes. \<open>pushed_at\<close> is the clock, as RFC 3339 text.
\<close>

definition ToKubernetesYAML ::
  "codec \<Rightarrow> string \<Rightarrow> ResourceRequest \<Rightarrow> string \<Rightarrow> string \<Rightarrow> (err + bytes) \<times> ResourceRequest" where
  "ToKubernetesYAML cd pushed_at r namespace version =
     (let r1 = (if spec_Replicas (req_Spec r) = 0
                then r\<lparr>req_Spec := (req_Spec r)\<lparr>spec_Replicas := 1\<rparr>\<rparr> else r);
          pr = \<lparr>pr_APIVersion = ''gitops-squared.io/v1alpha1'',
                pr_Kind = ''PlatformResource'',
                pr_Metadata =
                  \<lparr>md_Name = req_Name r1, md_Namespace = namespace,
                   md_Labels = [(''app.kubernetes.io/managed-by'', ''gitops-squared'')],
                   md_Annotations =
                     [(''gitops-squared.io/pushed-at'', pushed_at),
                      (''gitops-squared.io/version'', version)]\<rparr>,
                pr_Spec = req_Spec r1\<rparr>
      in (yaml_Marshal cd pr, r1))"

section \<open>Catalog manager (internal/api/catalog.go)\<close>

text \<open>
  The process state: the registry it talks to and the map \<open>resources\<close> of the catalog
  manager. The lock is not modelled: operations run one at a time.
\<close>

record server =
  sv_registry :: registry
  sv_resources :: "string \<rightharpoonup> bytes"

definition cm_Set :: "string \<Rightarrow> string \<Rightarrow> bytes \<Rightarrow> (string \<rightharpoonup> bytes) \<Rightarrow> (string \<rightharpoonup> bytes)" where
  "cm_Set namespace name manifest resources = resources(namespace @ ''/'' @ name \<mapsto> manifest)"

definition cm_Delete :: "string \<Rightarrow> string \<Rightarrow> (string \<rightharpoonup> bytes) \<Rightarrow> (string \<rightharpoonup> bytes)" where
  "cm_Delete namespace name resources = resources(namespace @ ''/'' @ name := None)"

definition cm_Get :: "string \<Rightarrow> string \<Rightarrow> (string \<rightharpoonup> bytes) \<Rightarrow> bytes option" where
  "cm_Get namespace name resources = resources (namespace @ ''/'' @ name)"

definition cm_List :: "(string \<rightharpoonup> bytes) \<Rightarrow> (string \<rightharpoonup> bytes)" where
  "cm_List resources = resources"

definition buildKustomization :: "string list \<Rightarrow> bytes" where
  "buildKustomization filenames =
     ''apiVersion: kustomize.config.k8s.io/v1beta1'' @ [CHR 0x0A] @
     ''kind: Kustomization'' @ [CHR 0x0A] @ ''resources:'' @ [CHR 0x0A] @
     concat (map (\<lambda>f. ''  - '' @ f @ [CHR 0x0A]) filenames) @
     (if length filenames = 0 then ''  []'' @ [CHR 0x0A] else [])"

text \<open>
  \<open>range\<close> over a Go map yields every entry once, in an order the runtime chooses. The
  functions that iterate take the entries as the sequence the iteration yields.
  The loop of \<open>buildCatalogTarGz\<close> appends to \<open>filenames\<close> and writes one member.
\<close>

fun write_entries ::
  "(string \<times> bytes) list \<Rightarrow> string list \<times> tar_file list \<Rightarrow> string list \<times> tar_file list" where
  "write_entries [] acc = acc"
| "write_entries ((key, manifest) # rest) (filenames, written) =
     (let filename = ReplaceAll_slash key @ ''.yaml'' in
      write_entries rest
        (filenames @ [filename],
         written @ [\<lparr>tf_Name = ''manifests/'' @ filename, tf_Mode = 420,
                     tf_Size = int (length manifest), tf_Body = manifest\<rparr>]))"

text \<open>The members \<open>buildCatalogTarGz\<close> writes, in order (mode 0644 is 420).\<close>

definition catalog_members :: "(string \<times> bytes) list \<Rightarrow> tar_file list" where
  "catalog_members resources =
     (let (filenames, written) = write_entries resources ([], []);
          kustomization = buildKustomization filenames
      in written @ [\<lparr>tf_Name = ''manifests/kustomization.yaml'', tf_Mode = 420,
                      tf_Size = int (length kustomization), tf_Body = kustomization\<rparr>])"

definition buildCatalogTarGz :: "codec \<Rightarrow> (string \<times> bytes) list \<Rightarrow> err + bytes" where
  "buildCatalogTarGz cd resources = tar_gzip cd (catalog_members resources)"

text \<open>The entries of a map in the order \<open>order\<close> visits its keys.\<close>

definition range_map :: "string list \<Rightarrow> (string \<rightharpoonup> bytes) \<Rightarrow> (string \<times> bytes) list" where
  "range_map order resources =
     List.map_filter (\<lambda>k. case resources k of None \<Rightarrow> None | Some v \<Rightarrow> Some (k, v)) order"

definition cm_PushCatalog :: "client \<Rightarrow> codec \<Rightarrow> catalog_env \<Rightarrow> server \<Rightarrow> err option \<times> server" where
  "cm_PushCatalog c cd env st =
     (let resources = range_map (ce_order env) (sv_resources st) in
      case buildCatalogTarGz cd resources of
        Inl e \<Rightarrow> (Some e, st)
      | Inr tarGz \<Rightarrow>
          (case PushCatalog c env tarGz (sv_registry st) of
             (Inl e, reg) \<Rightarrow> (Some e, st\<lparr>sv_registry := reg\<rparr>)
           | (Inr _, reg) \<Rightarrow> (None, st\<lparr>sv_registry := reg\<rparr>)))"

text \<open>
  What \<open>Restore\<close> reads from its environment: the failing call of the listing, the failing
  call of the pull of each resource, and the environment of the final publication.
\<close>

record restore_env =
  re_list_fault :: "err option"
  re_pull_fault :: "string \<Rightarrow> string \<Rightarrow> err option"
  re_catalog :: catalog_env

text \<open>The loop of \<open>Restore\<close>; it carries the map and the counter \<open>restored\<close>.\<close>

fun restore_loop ::
  "client \<Rightarrow> (string \<Rightarrow> string \<Rightarrow> err option) \<Rightarrow> registry \<Rightarrow> ResourceInfo list
   \<Rightarrow> (string \<rightharpoonup> bytes) \<times> nat \<Rightarrow> (string \<rightharpoonup> bytes) \<times> nat" where
  "restore_loop c pf reg [] acc = acc"
| "restore_loop c pf reg (repo # repos) (resources, restored) =
     (case PullResource c (pf (info_Namespace repo) (info_Name repo))
             (info_Namespace repo) (info_Name repo) ''latest'' reg of
        Inl e \<Rightarrow> restore_loop c pf reg repos (resources, restored)
      | Inr (manifest, annotations) \<Rightarrow>
          if annotations AnnotationResourceDeleted = Some ''true''
          then restore_loop c pf reg repos (resources, restored)
          else restore_loop c pf reg repos
                 (cm_Set (info_Namespace repo) (info_Name repo) manifest resources,
                  restored + 1))"

definition Restore :: "client \<Rightarrow> codec \<Rightarrow> restore_env \<Rightarrow> server \<Rightarrow> err option \<times> server" where
  "Restore c cd env st =
     (case ListResourceRepos c (re_list_fault env) (sv_registry st) of
        Inl e \<Rightarrow> (Some e, st)
      | Inr repos \<Rightarrow>
          (let (resources, restored) =
                 restore_loop c (re_pull_fault env) (sv_registry st) repos (sv_resources st, 0)
           in cm_PushCatalog c cd (re_catalog env) (st\<lparr>sv_resources := resources\<rparr>)))"

section \<open>HTTP handlers (internal/api/handler.go)\<close>

abbreviation defaultNamespace :: string where
  "defaultNamespace \<equiv> ''default''"

datatype body = ErrorBody | ResourceBody ResourceResponse

record response =
  status :: nat
  body :: body

record create_env =
  cr_pushed_at1 :: string
  cr_push :: push_env
  cr_pushed_at2 :: string
  cr_catalog :: catalog_env

text \<open>
  \<open>CreateResource\<close>; the decoded body is \<open>None\<close> when it is not valid JSON. The
  response bodies keep the fields the handlers set; the text of error messages and of
  log lines is left out.
\<close>

definition CreateResource ::
  "client \<Rightarrow> codec \<Rightarrow> create_env \<Rightarrow> ResourceRequest option \<Rightarrow> server \<Rightarrow> response \<times> server" where
  "CreateResource c cd env decoded st =
     (case decoded of
        None \<Rightarrow> (\<lparr>status = 400, body = ErrorBody\<rparr>, st)
      | Some req \<Rightarrow>
     (case Validate req of
        Some e \<Rightarrow> (\<lparr>status = 400, body = ErrorBody\<rparr>, st)
      | None \<Rightarrow>
     (case ToKubernetesYAML cd (cr_pushed_at1 env) req defaultNamespace ''pending'' of
        (Inl e, req1) \<Rightarrow> (\<lparr>status = 500, body = ErrorBody\<rparr>, st)
      | (Inr yamlBytes, req1) \<Rightarrow>
     (case PushResource c (cr_push env) defaultNamespace (req_Name req1) yamlBytes
             (sv_registry st) of
        (Inl e, reg) \<Rightarrow> (\<lparr>status = 500, body = ErrorBody\<rparr>, st\<lparr>sv_registry := reg\<rparr>)
      | (Inr (digest, version), reg) \<Rightarrow>
     (case ToKubernetesYAML cd (cr_pushed_at2 env) req1 defaultNamespace version of
        (Inl e, req2) \<Rightarrow> (\<lparr>status = 500, body = ErrorBody\<rparr>, st\<lparr>sv_registry := reg\<rparr>)
      | (Inr yamlBytes2, req2) \<Rightarrow>
          (let st1 = \<lparr>sv_registry = reg,
                      sv_resources =
                        cm_Set defaultNamespace (req_Name req2) yamlBytes2 (sv_resources st)\<rparr>;
               (_, st2) = cm_PushCatalog c cd (cr_catalog env) st1;
               resp = \<lparr>rr_Name = req_Name req2, rr_Version = version,
                       rr_Digest = Some digest,
                       rr_Repository =
                         ''gitops-squared/resources/'' @ defaultNamespace @ ''/'' @ req_Name req2,
                       rr_Spec = Some (req_Spec req2), rr_CreatedAt = [], rr_Deleted = False\<rparr>
           in (\<lparr>status = 201, body = ResourceBody resp\<rparr>, st2)))))))"

record delete_env =
  de_push :: push_env
  de_catalog :: catalog_env

definition DeleteResource ::
  "client \<Rightarrow> codec \<Rightarrow> delete_env \<Rightarrow> string \<Rightarrow> server \<Rightarrow> response \<times> server" where
  "DeleteResource c cd env name st =
     (if name = [] then (\<lparr>status = 400, body = ErrorBody\<rparr>, st)
      else
     (case cm_Get defaultNamespace name (sv_resources st) of
        None \<Rightarrow> (\<lparr>status = 404, body = ErrorBody\<rparr>, st)
      | Some _ \<Rightarrow>
     (case PushTombstone c (de_push env) defaultNamespace name (sv_registry st) of
        (Inl e, reg) \<Rightarrow> (\<lparr>status = 500, body = ErrorBody\<rparr>, st\<lparr>sv_registry := reg\<rparr>)
      | (Inr (digest, version), reg) \<Rightarrow>
          (let st1 = \<lparr>sv_registry = reg,
                      sv_resources = cm_Delete defaultNamespace name (sv_resources st)\<rparr>;
               (_, st2) = cm_PushCatalog c cd (de_catalog env) st1;
               resp = \<lparr>rr_Name = name, rr_Version = version, rr_Digest = Some digest,
                       rr_Repository = [], rr_Spec = None, rr_CreatedAt = [],
                       rr_Deleted = True\<rparr>
           in (\<lparr>status = 200, body = ResourceBody resp\<rparr>, st2)))))"

section \<open>The process over time (cmd/api/main.go)\<close>

text \<open>
  What happens to the state, one event at a time: a request to create, a request to
  delete, or a restart of the process, which begins with a fresh catalog manager (an
  empty map) and runs \<open>Restore\<close>.
\<close>

datatype event =
    Create create_env "ResourceRequest option"
  | Delete delete_env string
  | Restart restore_env

fun handle :: "client \<Rightarrow> codec \<Rightarrow> event \<Rightarrow> server \<Rightarrow> server" where
  "handle c cd (Create env decoded) st = snd (CreateResource c cd env decoded st)"
| "handle c cd (Delete env name) st = snd (DeleteResource c cd env name st)"
| "handle c cd (Restart env) st = snd (Restore c cd env (st\<lparr>sv_resources := Map.empty\<rparr>))"

fun serve :: "client \<Rightarrow> codec \<Rightarrow> event list \<Rightarrow> server \<Rightarrow> server" where
  "serve c cd [] st = st"
| "serve c cd (e # es) st = serve c cd es (handle c cd e st)"

text \<open>Whether an event is a request about the resource of the given name.\<close>

fun concerns :: "string \<Rightarrow> event \<Rightarrow> bool" where
  "concerns name (Create env decoded) =
     (case decoded of None \<Rightarrow> False | Some req \<Rightarrow> req_Name req = name)"
| "concerns name (Delete env n) = (n = name)"
| "concerns name (Restart env) = False"

section \<open>A concrete environment for evaluation\<close>

text \<open>
  The theorems below hold for every codec. To evaluate the model on examples, a codec is
  fixed: \<open>plain_yaml\<close> lays a \<open>PlatformResource\<close> out in the block style of the YAML
  encoder, keys in order and every scalar written plainly; \<open>plain_tar\<close> writes each
  member as its name and its body.
\<close>

definition yaml_pairs :: "string \<Rightarrow> (string \<times> string) list \<Rightarrow> string" where
  "yaml_pairs indent kvs = concat (map (\<lambda>(k, v). indent @ k @ '': '' @ v @ [CHR 0x0A]) kvs)"

definition plain_yaml :: "PlatformResource \<Rightarrow> err + bytes" where
  "plain_yaml pr =
     Inr (yaml_pairs [] [(''apiVersion'', pr_APIVersion pr), (''kind'', pr_Kind pr)] @
          ''metadata:'' @ [CHR 0x0A] @
          (if md_Annotations (pr_Metadata pr) = [] then []
           else ''  annotations:'' @ [CHR 0x0A] @
                yaml_pairs ''    '' (md_Annotations (pr_Metadata pr))) @
          (if md_Labels (pr_Metadata pr) = [] then []
           else ''  labels:'' @ [CHR 0x0A] @ yaml_pairs ''    '' (md_Labels (pr_Metadata pr))) @
          yaml_pairs ''  ''
            [(''name'', md_Name (pr_Metadata pr)),
             (''namespace'', md_Namespace (pr_Metadata pr))] @
          ''spec:'' @ [CHR 0x0A] @
          (if spec_Region (pr_Spec pr) = [] then []
           else yaml_pairs ''  '' [(''region'', spec_Region (pr_Spec pr))]) @
          (if spec_Replicas (pr_Spec pr) = 0 then []
           else yaml_pairs ''  '' [(''replicas'', Sprintf_d (spec_Replicas (pr_Spec pr)))]) @
          yaml_pairs ''  ''
            [(''size'', spec_Size (pr_Spec pr)), (''type'', spec_Type (pr_Spec pr))])"

definition plain_tar :: "tar_file list \<Rightarrow> err + bytes" where
  "plain_tar fs = Inr (concat (map (\<lambda>f. tf_Name f @ [CHR 0x0A] @ tf_Body f) fs))"

definition plain_codec :: codec where
  "plain_codec = \<lparr>yaml_Marshal = plain_yaml, tar_gzip = plain_tar\<rparr>"

definition main_client :: client where
  "main_client = NewClient ''localhost:5000'' ''gitops-squared/resources''"

definition empty_server :: server where
  "empty_server = \<lparr>sv_registry = empty_registry, sv_resources = Map.empty\<rparr>"

definition push_at :: "int \<Rightarrow> push_env" where
  "push_at t = \<lparr>pe_now = t, pe_created = ''2026-02-10T13:50:25Z'', pe_fault = None\<rparr>"

definition catalog_ok :: "string list \<Rightarrow> catalog_env" where
  "catalog_ok order = \<lparr>ce_order = order, ce_created = ''2026-02-10T13:50:25Z'', ce_fault = None\<rparr>"

definition web_server :: ResourceRequest where
  "web_server =
     \<lparr>req_Name = ''web-server'',
      req_Spec = \<lparr>spec_Type = ''vm'', spec_Size = ''medium'', spec_Region = ''us-east-1'',
                  spec_Replicas = 2\<rparr>\<rparr>"

definition create_at :: "int \<Rightarrow> string list \<Rightarrow> create_env" where
  "create_at t order =
     \<lparr>cr_pushed_at1 = ''2026-02-10T13:50:25Z'', cr_push = push_at t,
      cr_pushed_at2 = ''2026-02-10T13:50:25Z'', cr_catalog = catalog_ok order\<rparr>"

definition delete_at :: "int \<Rightarrow> string list \<Rightarrow> delete_env" where
  "delete_at t order = \<lparr>de_push = push_at t, de_catalog = catalog_ok order\<rparr>"

definition restore_ok :: "string list \<Rightarrow> restore_env" where
  "restore_ok order =
     \<lparr>re_list_fault = None, re_pull_fault = (\<lambda>_ _. None), re_catalog = catalog_ok order\<rparr>"

text \<open>Two publications of one resource within the same second of the clock.\<close>

definition first_push :: "(err + digest \<times> string) \<times> registry" where
  "first_push =
     PushResource main_client (push_at 1770731425) ''default'' ''web-server'' ''size: medium''
       empty_registry"

definition second_push :: "(err + digest \<times> string) \<times> registry" where
  "second_push =
     PushResource main_client (push_at 1770731425) ''default'' ''web-server'' ''size: large''
       (snd first_push)"

definition tombstone_push :: "(err + digest \<times> string) \<times> registry" where
  "tombstone_push =
     PushTombstone main_client (push_at 1770731500) ''default'' ''web-server'' (snd first_push)"

text \<open>An index entry for a resource the registry does not hold.\<close>

definition ghost_server :: server where
  "ghost_server =
     \<lparr>sv_registry = empty_registry, sv_resources = [''default/ghost'' \<mapsto> ''kind: Ghost'']\<rparr>"

text \<open>
  A registry that lists a path with a single segment after the prefix, a repository
  without any tag, and the repository of the first publication.
\<close>

definition patchy_server :: server where
  "patchy_server =
     \<lparr>sv_registry =
        \<lparr>repositories =
           [''gitops-squared/resources/orphan'', ''gitops-squared/resources/default/broken'',
            ''gitops-squared/resources/default/web-server''],
         tags = tags (snd first_push)\<rparr>,
      sv_resources = Map.empty\<rparr>"

definition broken_info :: ResourceInfo where
  "broken_info =
     \<lparr>info_Repository = ''gitops-squared/resources/default/broken'',
      info_Namespace = ''default'', info_Name = ''broken'', info_Digest = [],
      info_Version = []\<rparr>"

definition web_info :: ResourceInfo where
  "web_info =
     \<lparr>info_Repository = ''gitops-squared/resources/default/web-server'',
      info_Namespace = ''default'', info_Name = ''web-server'', info_Digest = [],
      info_Version = []\<rparr>"

text \<open>The state after the first publication, with the entry the index then holds.\<close>

definition live_server :: server where
  "live_server =
     \<lparr>sv_registry = snd first_push,
      sv_resources = [''default/web-server'' \<mapsto> ''size: medium'']\<rparr>"

text \<open>A start of the process while the registry cannot be listed.\<close>

definition restore_unreachable :: restore_env where
  "restore_unreachable =
     \<lparr>re_list_fault = Some ErrListRepos, re_pull_fault = (\<lambda>_ _. None),
      re_catalog = catalog_ok []\<rparr>"

text \<open>A second resource, published after the first.\<close>

definition app_db :: ResourceRequest where
  "app_db =
     \<lparr>req_Name = ''app-db'',
      req_Spec = \<lparr>spec_Type = ''database'', spec_Size = ''large'', spec_Region = ''us-east-1'',
                  spec_Replicas = 0\<rparr>\<rparr>"

text \<open>One publication on an empty registry, and a restart of the process after it.\<close>

definition created_server :: server where
  "created_server =
     snd (CreateResource main_client plain_codec (create_at 1770731425 []) (Some web_server)
            empty_server)"

definition restarted_server :: server where
  "restarted_server =
     snd (Restore main_client plain_codec (restore_ok [])
            (created_server\<lparr>sv_resources := Map.empty\<rparr>))"

text \<open>Two index entries, as one iteration of the map may yield them.\<close>

definition demo_entries :: "(string \<times> bytes) list" where
  "demo_entries = [(''default/web-server'', ''kind: W''), (''default/app-db'', ''kind: D'')]"

section \<open>Reading a manifest list\<close>

text \<open>
  To say which files a \<open>kustomization.yaml\<close> lists, its text is cut into lines and the
  items of the list are taken: the lines that start with the item marker, without it.
\<close>

primrec split_lines :: "string \<Rightarrow> string \<Rightarrow> string list" where
  "split_lines cur [] = (if cur = [] then [] else [cur])"
| "split_lines cur (ch # rest) =
     (if ch = CHR 0x0A then cur # split_lines [] rest else split_lines (cur @ [ch]) rest)"

definition listed_resources :: "bytes \<Rightarrow> string list" where
  "listed_resources text =
     map (drop 4) (filter (\<lambda>l. take 4 l = ''  - '') (split_lines [] text))"

text \<open>A resource whose name has a separator in it, published on an empty registry.\<close>

definition slashed_server :: server where
  "slashed_server =
     \<lparr>sv_registry =
        snd (PushResource main_client (push_at 1770731425) ''default'' ''a/b'' ''kind: X''
               empty_registry),
      sv_resources = Map.empty\<rparr>"

section \<open>The segments of a path\<close>

text \<open>
  To count the segments of the remainder of a repository path, it is cut at every
  separator, as \<open>strings.Split(s, "/")\<close> does: one segment more than separators.
\<close>

primrec segments_from :: "string \<Rightarrow> string \<Rightarrow> string list" where
  "segments_from cur [] = [cur]"
| "segments_from cur (ch # rest) =
     (if ch = CHR ''/'' then cur # segments_from [] rest else segments_from (cur @ [ch]) rest)"

definition segments :: "string \<Rightarrow> string list" where
  "segments s = segments_from [] s"

section \<open>Names for what the pushes write\<close>

text \<open>The manifest \<open>PushResource\<close> packs, and the one \<open>PushTombstone\<close> packs.\<close>

definition resource_manifest :: "string \<Rightarrow> string \<Rightarrow> string \<Rightarrow> string \<Rightarrow> bytes \<Rightarrow> manifest" where
  "resource_manifest namespace name version created manifest =
     \<lparr>m_artifactType = ArtifactTypeResource, m_config = empty_config,
      m_layers =
        [\<lparr>d_mediaType = MediaTypeResourceYAML, d_data = manifest,
          d_annotations =
            [AnnotationTitle \<mapsto> ''platformresource.yaml'',
             AnnotationResourceName \<mapsto> name,
             AnnotationResourceNamespace \<mapsto> namespace,
             AnnotationResourceVersion \<mapsto> version]\<rparr>],
      m_annotations =
        [AnnotationCreated \<mapsto> created,
         AnnotationResourceName \<mapsto> name,
         AnnotationResourceNamespace \<mapsto> namespace]\<rparr>"

definition tombstone_manifest :: "string \<Rightarrow> string \<Rightarrow> string \<Rightarrow> string \<Rightarrow> manifest" where
  "tombstone_manifest namespace name version created =
     \<lparr>m_artifactType = ArtifactTypeResource, m_config = empty_config,
      m_layers =
        [\<lparr>d_mediaType = MediaTypeResourceYAML,
          d_data = ''# deleted: '' @ namespace @ ''/'' @ name @ [CHR 0x0A],
          d_annotations =
            [AnnotationResourceName \<mapsto> name,
             AnnotationResourceNamespace \<mapsto> namespace,
             AnnotationResourceDeleted \<mapsto> ''true'',
             AnnotationResourceVersion \<mapsto> version]\<rparr>],
      m_annotations =
        [AnnotationCreated \<mapsto> created,
         AnnotationResourceDeleted \<mapsto> ''true'']\<rparr>"

text \<open>The layer contents under a tag, to compare what a tag holds at two moments.\<close>

definition tag_contents :: "registry \<Rightarrow> string \<Rightarrow> string \<Rightarrow> bytes list option" where
  "tag_contents reg path tag = map_option (\<lambda>m. map d_data (m_layers m)) (tags reg path tag)"

text \<open>The manifest \<open>PushCatalog\<close> packs around the archive bytes.\<close>

definition catalog_manifest :: "string \<Rightarrow> bytes \<Rightarrow> manifest" where
  "catalog_manifest created tarGzBytes =
     \<lparr>m_artifactType = MediaTypeFluxConfig,
      m_config = \<lparr>d_mediaType = MediaTypeFluxConfig, d_data = ''{}'',
                  d_annotations = Map.empty\<rparr>,
      m_layers = [\<lparr>d_mediaType = MediaTypeFluxContent, d_data = tarGzBytes,
                   d_annotations = Map.empty\<rparr>],
      m_annotations = [AnnotationCreated \<mapsto> created]\<rparr>"

text \<open>
  What one round of the loop of \<open>Restore\<close> stores for a listed repository: nothing when
  the pull fails or the latest version is marked deleted, else the key and the bytes.
\<close>

definition restored_entry ::
  "client \<Rightarrow> (string \<Rightarrow> string \<Rightarrow> err option) \<Rightarrow> registry \<Rightarrow> ResourceInfo
   \<Rightarrow> (string \<times> bytes) option" where
  "restored_entry c pf reg repo =
     (case PullResource c (pf (info_Namespace repo) (info_Name repo))
             (info_Namespace repo) (info_Name repo) ''latest'' reg of
        Inl e \<Rightarrow> None
      | Inr (manifest, annotations) \<Rightarrow>
          if annotations AnnotationResourceDeleted = Some ''true'' then None
          else Some (info_Namespace repo @ ''/'' @ info_Name repo, manifest))"

text \<open>The number of separators in a repository path.\<close>

definition slashes :: "string \<Rightarrow> nat" where
  "slashes s = length (filter (\<lambda>c. c = CHR ''/'') s)"

text \<open>
  A step leaves a repository alone when its tags are what they were and it is still
  listed if it was.
\<close>

definition untouched :: "string \<Rightarrow> registry \<Rightarrow> registry \<Rightarrow> bool" where
  "untouched path reg reg' \<longleftrightarrow>
     tags reg' path = tags reg path \<and>
     (path \<in> set (repositories reg) \<longrightarrow> path \<in> set (repositories reg'))"

section \<open>What a push and a pull do to the registry\<close>

lemma tags_put_tag:
  "tags (put_tag path tag m reg) p t = (if p = path \<and> t = tag then Some m else tags reg p t)"
  by (simp add: put_tag_def)

lemma PushResource_success:
  assumes "PushResource c env ns name manifest reg = (Inr (d, v), reg')"
  shows "v = ''v'' @ Sprintf_d (pe_now env)"
    and "d = Digest (resource_manifest ns name v (pe_created env) manifest)"
    and "reg' = put_tag (resourceRepoPath c ns name) ''latest''
                  (resource_manifest ns name v (pe_created env) manifest)
                  (put_tag (resourceRepoPath c ns name) v
                     (resource_manifest ns name v (pe_created env) manifest) reg)"
  using assms
  by (auto simp add: PushResource_def Let_def resource_manifest_def split: if_splits)

lemma PushTombstone_success:
  assumes "PushTombstone c env ns name reg = (Inr (d, v), reg')"
  shows "v = ''v'' @ Sprintf_d (pe_now env)"
    and "d = Digest (tombstone_manifest ns name v (pe_created env))"
    and "reg' = put_tag (resourceRepoPath c ns name) ''latest''
                  (tombstone_manifest ns name v (pe_created env))
                  (put_tag (resourceRepoPath c ns name) v
                     (tombstone_manifest ns name v (pe_created env)) reg)"
  using assms
  by (auto simp add: PushTombstone_def Let_def tombstone_manifest_def split: if_splits)

lemma PushResource_no_fault:
  "pe_fault env = None \<Longrightarrow>
   PushResource c env ns name manifest reg =
     (Inr (Digest (resource_manifest ns name (''v'' @ Sprintf_d (pe_now env)) (pe_created env) manifest),
           ''v'' @ Sprintf_d (pe_now env)),
      put_tag (resourceRepoPath c ns name) ''latest''
        (resource_manifest ns name (''v'' @ Sprintf_d (pe_now env)) (pe_created env) manifest)
        (put_tag (resourceRepoPath c ns name) (''v'' @ Sprintf_d (pe_now env))
           (resource_manifest ns name (''v'' @ Sprintf_d (pe_now env)) (pe_created env) manifest) reg))"
  by (simp add: PushResource_def Let_def resource_manifest_def)

lemma PushTombstone_no_fault:
  "pe_fault env = None \<Longrightarrow>
   PushTombstone c env ns name reg =
     (Inr (Digest (tombstone_manifest ns name (''v'' @ Sprintf_d (pe_now env)) (pe_created env)),
           ''v'' @ Sprintf_d (pe_now env)),
      put_tag (resourceRepoPath c ns name) ''latest''
        (tombstone_manifest ns name (''v'' @ Sprintf_d (pe_now env)) (pe_created env))
        (put_tag (resourceRepoPath c ns name) (''v'' @ Sprintf_d (pe_now env))
           (tombstone_manifest ns name (''v'' @ Sprintf_d (pe_now env)) (pe_created env)) reg))"
  by (simp add: PushTombstone_def Let_def tombstone_manifest_def)

lemma PullResource_tagged:
  assumes "tags reg (resourceRepoPath c ns name) ref = Some m" and "m_layers m = l # ls"
  shows "PullResource c None ns name ref reg = Inr (d_data l, m_annotations m ++ d_annotations l)"
    and "PullResource c f ns name ref reg = Inr r \<Longrightarrow>
         r = (d_data l, m_annotations m ++ d_annotations l)"
  using assms by (auto simp add: PullResource_def split: if_splits)

subsection \<open>The example pushes\<close>

lemma Sprintf_d_demo: "Sprintf_d 1770731425 = ''1770731425''"
  by (simp add: Sprintf_d_def decimal.simps)

lemma first_push_eq:
  "first_push =
     (Inr (Digest (resource_manifest ''default'' ''web-server'' ''v1770731425''
                     ''2026-02-10T13:50:25Z'' ''size: medium''), ''v1770731425''),
      put_tag ''gitops-squared/resources/default/web-server'' ''latest''
        (resource_manifest ''default'' ''web-server'' ''v1770731425''
           ''2026-02-10T13:50:25Z'' ''size: medium'')
        (put_tag ''gitops-squared/resources/default/web-server'' ''v1770731425''
           (resource_manifest ''default'' ''web-server'' ''v1770731425''
              ''2026-02-10T13:50:25Z'' ''size: medium'') empty_registry))"
  by (simp add: first_push_def PushResource_no_fault push_at_def Sprintf_d_demo main_client_def
        NewClient_def resourceRepoPath_def)

lemma second_push_eq:
  "second_push =
     (Inr (Digest (resource_manifest ''default'' ''web-server'' ''v1770731425''
                     ''2026-02-10T13:50:25Z'' ''size: large''), ''v1770731425''),
      put_tag ''gitops-squared/resources/default/web-server'' ''latest''
        (resource_manifest ''default'' ''web-server'' ''v1770731425''
           ''2026-02-10T13:50:25Z'' ''size: large'')
        (put_tag ''gitops-squared/resources/default/web-server'' ''v1770731425''
           (resource_manifest ''default'' ''web-server'' ''v1770731425''
              ''2026-02-10T13:50:25Z'' ''size: large'') (snd first_push)))"
  by (simp add: second_push_def PushResource_no_fault push_at_def Sprintf_d_demo main_client_def
        NewClient_def resourceRepoPath_def)

lemma Sprintf_d_demo2: "Sprintf_d 1770731500 = ''1770731500''"
  by (simp add: Sprintf_d_def decimal.simps)

lemma tombstone_push_eq:
  "tombstone_push =
     (Inr (Digest (tombstone_manifest ''default'' ''web-server'' ''v1770731500''
                     ''2026-02-10T13:50:25Z''), ''v1770731500''),
      put_tag ''gitops-squared/resources/default/web-server'' ''latest''
        (tombstone_manifest ''default'' ''web-server'' ''v1770731500'' ''2026-02-10T13:50:25Z'')
        (put_tag ''gitops-squared/resources/default/web-server'' ''v1770731500''
           (tombstone_manifest ''default'' ''web-server'' ''v1770731500''
              ''2026-02-10T13:50:25Z'') (snd first_push)))"
  by (simp add: tombstone_push_def PushTombstone_no_fault push_at_def Sprintf_d_demo2
        main_client_def NewClient_def resourceRepoPath_def)

subsection \<open>Paths and keys\<close>

lemma SplitN2_two:
  assumes "length (SplitN2 s) = 2"
  shows "s = SplitN2 s ! 0 @ ''/'' @ SplitN2 s ! 1" and "CHR ''/'' \<notin> set (SplitN2 s ! 0)"
proof -
  from assms have in_s: "CHR ''/'' \<in> set s"
    by (auto simp add: SplitN2_def split: if_splits)
  let ?P = "\<lambda>c. c \<noteq> CHR ''/''"
  have d: "dropWhile ?P s \<noteq> []" using in_s by (simp add: dropWhile_eq_Nil_conv)
  then have hd: "hd (dropWhile ?P s) = CHR ''/''"
    using hd_dropWhile [of ?P s] by simp
  have "s = takeWhile ?P s @ dropWhile ?P s" by simp
  also have "dropWhile ?P s = CHR ''/'' # tl (dropWhile ?P s)"
    using d hd by (cases "dropWhile ?P s") auto
  finally show "s = SplitN2 s ! 0 @ ''/'' @ SplitN2 s ! 1"
    using in_s by (simp add: SplitN2_def)
  show "CHR ''/'' \<notin> set (SplitN2 s ! 0)"
    using in_s by (auto simp add: SplitN2_def dest: set_takeWhileD)
qed

lemma SplitN2_join:
  assumes "CHR ''/'' \<notin> set a"
  shows "SplitN2 (a @ ''/'' @ b) = [a, b]"
proof -
  have "takeWhile (\<lambda>c. c \<noteq> CHR ''/'') (a @ CHR ''/'' # b) = a"
    using assms by (induction a) auto
  moreover have "dropWhile (\<lambda>c. c \<noteq> CHR ''/'') (a @ CHR ''/'' # b) = CHR ''/'' # b"
    using assms by (induction a) auto
  ultimately show ?thesis by (simp add: SplitN2_def)
qed

lemma key_inject:
  assumes "a @ ''/'' @ b = a' @ ''/'' @ b'" "CHR ''/'' \<notin> set a" "CHR ''/'' \<notin> set a'"
  shows "a = a' \<and> b = b'"
proof -
  have "SplitN2 (a @ ''/'' @ b) = [a, b]" "SplitN2 (a' @ ''/'' @ b') = [a', b']"
    by (rule SplitN2_join [OF assms(2)], rule SplitN2_join [OF assms(3)])
  with assms(1) show ?thesis by simp
qed

lemma HasPrefix_append: "HasPrefix (p @ s) p"
  by (simp add: HasPrefix_def)

lemma HasPrefix_D: "HasPrefix r p \<Longrightarrow> r = p @ TrimPrefix r p"
  by (simp add: HasPrefix_def TrimPrefix_def) (metis append_take_drop_id)

lemma TrimPrefix_append: "TrimPrefix (p @ s) p = s"
  by (simp add: TrimPrefix_def HasPrefix_def)

lemma slashes_append: "slashes (a @ b) = slashes a + slashes b"
  by (simp add: slashes_def)

lemma slashes_path: "2 \<le> slashes (resourceRepoPath c ns name)"
  by (simp add: resourceRepoPath_def slashes_def)

lemma slashes_catalog: "slashes ''gitops-squared/catalog'' = 1"
  by (simp add: slashes_def)

lemma path_not_catalog: "resourceRepoPath c ns name \<noteq> ''gitops-squared/catalog''"
  using slashes_path [of c ns name] slashes_catalog by auto

lemma collect_repos_append:
  "collect_repos c (xs @ ys) = collect_repos c xs @ collect_repos c ys"
  by (induction xs) (simp_all add: Let_def)

lemma collect_repos_info:
  assumes "i \<in> set (collect_repos c names)"
  shows "info_Repository i \<in> set names"
    and "info_Repository i = resourceRepoPath c (info_Namespace i) (info_Name i)"
    and "CHR ''/'' \<notin> set (info_Namespace i)"
  using assms
proof (induction names)
  case Nil
  case 1 then show ?case by simp
  case 2 then show ?case by simp
  case 3 then show ?case by simp
next
  case (Cons r names)
  let ?sfx = "TrimPrefix r (repoPrefix c @ ''/'')"
  {
    assume new: "HasPrefix r (repoPrefix c @ ''/'')" "length (SplitN2 ?sfx) = 2"
      "i = \<lparr>info_Repository = r, info_Namespace = SplitN2 ?sfx ! 0,
             info_Name = SplitN2 ?sfx ! 1, info_Digest = [], info_Version = []\<rparr>"
    have "r = (repoPrefix c @ ''/'') @ ?sfx" using HasPrefix_D [OF new(1)] .
    also have "?sfx = SplitN2 ?sfx ! 0 @ ''/'' @ SplitN2 ?sfx ! 1"
      using SplitN2_two(1) [OF new(2)] .
    finally have "info_Repository i = resourceRepoPath c (info_Namespace i) (info_Name i)"
      by (simp add: new(3) resourceRepoPath_def)
    moreover have "CHR ''/'' \<notin> set (info_Namespace i)"
      using SplitN2_two(2) [OF new(2)] by (simp add: new(3))
    ultimately have "info_Repository i = resourceRepoPath c (info_Namespace i) (info_Name i)
       \<and> CHR ''/'' \<notin> set (info_Namespace i) \<and> info_Repository i = r"
      by (simp add: new(3))
  } note new = this
  case 1 with Cons.IH(1) new show ?case
    by (auto simp add: Let_def split: if_splits)
  case 2 with Cons.IH(2) new show ?case
    by (auto simp add: Let_def split: if_splits)
  case 3 with Cons.IH(3) new show ?case
    by (auto simp add: Let_def split: if_splits)
qed

lemma collect_repos_mem:
  assumes "resourceRepoPath c ns name \<in> set names" "CHR ''/'' \<notin> set ns"
  shows "\<lparr>info_Repository = resourceRepoPath c ns name, info_Namespace = ns, info_Name = name,
          info_Digest = [], info_Version = []\<rparr> \<in> set (collect_repos c names)"
  using assms
proof (induction names)
  case Nil then show ?case by simp
next
  case (Cons r names)
  have p: "resourceRepoPath c ns name = (repoPrefix c @ ''/'') @ (ns @ ''/'' @ name)"
    by (simp add: resourceRepoPath_def)
  have "HasPrefix (resourceRepoPath c ns name) (repoPrefix c @ ''/'')"
    unfolding p by (rule HasPrefix_append)
  moreover have "TrimPrefix (resourceRepoPath c ns name) (repoPrefix c @ ''/'') = ns @ ''/'' @ name"
    unfolding p by (rule TrimPrefix_append)
  moreover have "SplitN2 (ns @ ''/'' @ name) = [ns, name]"
    using Cons.prems(2) by (rule SplitN2_join)
  ultimately show ?case using Cons
    by (cases "r = resourceRepoPath c ns name") (auto simp add: Let_def)
qed

lemma collect_repos_catalog:
  "collect_repos c [''gitops-squared/catalog''] = []"
proof (rule ccontr)
  assume "collect_repos c [''gitops-squared/catalog''] \<noteq> []"
  then obtain i where i: "i \<in> set (collect_repos c [''gitops-squared/catalog''])"
    by (cases "collect_repos c [''gitops-squared/catalog'']") auto
  from collect_repos_info(1,2) [OF i] path_not_catalog show False by simp
qed

lemma collect_repos_put_catalog:
  "collect_repos c (repositories (put_tag ''gitops-squared/catalog'' t m reg)) =
   collect_repos c (repositories reg)"
  by (simp add: put_tag_def collect_repos_append collect_repos_catalog del: collect_repos.simps)

lemma PullResource_put_catalog:
  "PullResource c f ns name ref (put_tag ''gitops-squared/catalog'' t m reg) =
   PullResource c f ns name ref reg"
  using path_not_catalog [of c ns name] by (simp add: PullResource_def put_tag_def)

subsection \<open>The loop of Restore\<close>

lemma set_map_filter:
  "set (List.map_filter f xs) = {y. \<exists>x \<in> set xs. f x = Some y}"
  by (induction xs) (auto split: option.splits)

lemma map_add_twice: "(m ++ g) ++ g = m ++ g"
  by (rule ext) (simp add: map_add_def split: option.splits)

lemma map_add_single: "(m ++ map_of [(k, v)]) ++ g = m(k \<mapsto> v) ++ g"
  by (rule ext) (simp add: map_add_def split: option.splits)

lemma restore_loop_step:
  "restored_entry c pf reg repo = None \<Longrightarrow>
     restore_loop c pf reg (repo # repos) (rs, n) = restore_loop c pf reg repos (rs, n)"
  "restored_entry c pf reg repo = Some (k, v) \<Longrightarrow>
     restore_loop c pf reg (repo # repos) (rs, n) =
     restore_loop c pf reg repos (rs(k \<mapsto> v), n + 1)"
  by (auto simp add: restored_entry_def cm_Set_def split: sum.splits if_splits)

lemma restore_loop_eq:
  "restore_loop c pf reg repos (rs, n) =
     (rs ++ map_of (rev (List.map_filter (restored_entry c pf reg) repos)),
      n + length (List.map_filter (restored_entry c pf reg) repos))"
proof (induction repos arbitrary: rs n)
  case Nil
  then show ?case by simp
next
  case (Cons repo repos)
  show ?case
  proof (cases "restored_entry c pf reg repo")
    case None
    show ?thesis
      unfolding restore_loop_step(1) [OF None] Cons.IH using None by simp
  next
    case (Some kv)
    obtain k v where kv: "restored_entry c pf reg repo = Some (k, v)"
      using Some by (cases kv) simp
    show ?thesis
      unfolding restore_loop_step(2) [OF kv] Cons.IH using kv
      by (simp add: map_add_single del: map_of.simps)
  qed
qed

lemma restore_loop_idem:
  "fst (restore_loop c pf reg repos (fst (restore_loop c pf reg repos (rs, n)), n')) =
   fst (restore_loop c pf reg repos (rs, n))"
  by (simp add: restore_loop_eq map_add_twice)

lemma restore_loop_keeps:
  assumes "rs k = Some b"
  shows "fst (restore_loop c pf reg repos (rs, n)) k \<noteq> None"
  using assms by (simp add: restore_loop_eq map_add_def split: option.splits)

lemma restore_loop_frame:
  assumes "\<forall>repo \<in> set repos. \<forall>v. restored_entry c pf reg repo \<noteq> Some (k, v)"
  shows "fst (restore_loop c pf reg repos (rs, n)) k = rs k"
proof -
  have "k \<notin> fst ` set (List.map_filter (restored_entry c pf reg) repos)"
    using assms by (force simp add: set_map_filter)
  then have "map_of (rev (List.map_filter (restored_entry c pf reg) repos)) k = None"
    by (simp add: map_of_eq_None_iff)
  then show ?thesis by (simp add: restore_loop_eq map_add_def)
qed

lemma restore_loop_sets:
  assumes "repo \<in> set repos" "restored_entry c pf reg repo = Some (k, v)"
    and "\<forall>r \<in> set repos. \<forall>v'. restored_entry c pf reg r = Some (k, v') \<longrightarrow> v' = v"
  shows "fst (restore_loop c pf reg repos (rs, n)) k = Some v"
proof -
  let ?kvs = "rev (List.map_filter (restored_entry c pf reg) repos)"
  have mem: "(k, v) \<in> set ?kvs" using assms(1,2) by (force simp add: set_map_filter)
  then obtain v' where v': "map_of ?kvs k = Some v'"
    by (metis map_of_eq_None_iff not_None_eq fst_conv image_eqI)
  then have "(k, v') \<in> set ?kvs" by (rule map_of_SomeD)
  then have "v' = v" using assms(3) by (force simp add: set_map_filter)
  with v' show ?thesis by (simp add: restore_loop_eq map_add_def)
qed

lemma cm_PushCatalog_resources:
  "sv_resources (snd (cm_PushCatalog c cd env st)) = sv_resources st"
  by (simp add: cm_PushCatalog_def split: sum.splits prod.splits)

lemma PushCatalog_registry:
  "snd (PushCatalog c env tgz reg) = reg \<or>
   snd (PushCatalog c env tgz reg) =
     put_tag ''gitops-squared/catalog'' ''latest'' (catalog_manifest (ce_created env) tgz) reg"
  by (simp add: PushCatalog_def Let_def catalog_manifest_def)

lemma cm_PushCatalog_registry:
  "sv_registry (snd (cm_PushCatalog c cd env st)) = sv_registry st \<or>
   (\<exists>m. sv_registry (snd (cm_PushCatalog c cd env st)) =
          put_tag ''gitops-squared/catalog'' ''latest'' m (sv_registry st))"
proof (cases "buildCatalogTarGz cd (range_map (ce_order env) (sv_resources st))")
  case (Inl e)
  then show ?thesis by (simp add: cm_PushCatalog_def)
next
  case (Inr tgz)
  obtain r reg where p: "PushCatalog c env tgz (sv_registry st) = (r, reg)"
    by (cases "PushCatalog c env tgz (sv_registry st)")
  with PushCatalog_registry [of c env tgz "sv_registry st"]
  have "reg = sv_registry st \<or>
        reg = put_tag ''gitops-squared/catalog'' ''latest''
                (catalog_manifest (ce_created env) tgz) (sv_registry st)"
    by simp
  with Inr p show ?thesis
    by (cases r) (auto simp add: cm_PushCatalog_def)
qed

lemma Restore_resources:
  "sv_resources (snd (Restore c cd env st)) =
     (case ListResourceRepos c (re_list_fault env) (sv_registry st) of
        Inl e \<Rightarrow> sv_resources st
      | Inr repos \<Rightarrow>
          fst (restore_loop c (re_pull_fault env) (sv_registry st) repos (sv_resources st, 0)))"
  by (simp add: Restore_def cm_PushCatalog_resources split: sum.splits prod.splits)

lemma Restore_registry:
  "sv_registry (snd (Restore c cd env st)) = sv_registry st \<or>
   (\<exists>m. sv_registry (snd (Restore c cd env st)) =
          put_tag ''gitops-squared/catalog'' ''latest'' m (sv_registry st))"
proof (cases "ListResourceRepos c (re_list_fault env) (sv_registry st)")
  case (Inl e)
  then show ?thesis by (simp add: Restore_def)
next
  case (Inr repos)
  obtain rs n where l: "restore_loop c (re_pull_fault env) (sv_registry st) repos
                          (sv_resources st, 0) = (rs, n)"
    by (cases "restore_loop c (re_pull_fault env) (sv_registry st) repos (sv_resources st, 0)")
  show ?thesis
    using cm_PushCatalog_registry [of c cd "re_catalog env" "st\<lparr>sv_resources := rs\<rparr>"] Inr l
    by (simp add: Restore_def)
qed

lemma restored_entry_put_catalog:
  "restored_entry c pf (put_tag ''gitops-squared/catalog'' t m reg) = restored_entry c pf reg"
  by (rule ext) (simp add: restored_entry_def PullResource_put_catalog)

lemma restore_loop_put_catalog:
  "restore_loop c pf (put_tag ''gitops-squared/catalog'' t m reg) repos acc =
   restore_loop c pf reg repos acc"
  by (cases acc) (simp add: restore_loop_eq restored_entry_put_catalog)

lemma ListResourceRepos_put_catalog:
  "ListResourceRepos c f (put_tag ''gitops-squared/catalog'' t m reg) = ListResourceRepos c f reg"
  by (simp add: ListResourceRepos_def collect_repos_put_catalog)

subsection \<open>Listed resources\<close>

lemma restored_entry_SomeD:
  assumes "restored_entry c pf reg repo = Some (k, v)"
  shows "k = info_Namespace repo @ ''/'' @ info_Name repo"
    and "\<exists>ann. PullResource c (pf (info_Namespace repo) (info_Name repo)) (info_Namespace repo)
                 (info_Name repo) ''latest'' reg = Inr (v, ann) \<and>
               ann AnnotationResourceDeleted \<noteq> Some ''true''"
  using assms by (auto simp add: restored_entry_def split: sum.splits if_splits)

lemma restored_entry_SomeI:
  assumes "PullResource c (pf (info_Namespace repo) (info_Name repo)) (info_Namespace repo)
             (info_Name repo) ''latest'' reg = Inr (v, ann)"
    and "ann AnnotationResourceDeleted \<noteq> Some ''true''"
  shows "restored_entry c pf reg repo = Some (info_Namespace repo @ ''/'' @ info_Name repo, v)"
  using assms by (simp add: restored_entry_def)

lemma listed_entry_unique:
  assumes "repo \<in> set (collect_repos c names)" "r \<in> set (collect_repos c names)"
    and "restored_entry c pf reg repo = Some (k, v)" "restored_entry c pf reg r = Some (k, v')"
  shows "v' = v"
proof -
  have "info_Namespace repo @ ''/'' @ info_Name repo = info_Namespace r @ ''/'' @ info_Name r"
    using restored_entry_SomeD(1) [OF assms(3)] restored_entry_SomeD(1) [OF assms(4)] by simp
  then have "info_Namespace repo = info_Namespace r \<and> info_Name repo = info_Name r"
    using collect_repos_info(3) [OF assms(1)] collect_repos_info(3) [OF assms(2)]
    by (rule key_inject)
  then have "restored_entry c pf reg r = restored_entry c pf reg repo"
    by (auto simp add: restored_entry_def split: sum.splits)
  with assms(3,4) show ?thesis by simp
qed

lemma Restore_sets_listed:
  assumes "ListResourceRepos c (re_list_fault env) (sv_registry st) = Inr repos"
    and "repo \<in> set repos"
    and "restored_entry c (re_pull_fault env) (sv_registry st) repo = Some (k, v)"
  shows "sv_resources (snd (Restore c cd env st)) k = Some v"
proof -
  have repos: "repos = collect_repos c (repositories (sv_registry st))"
    using assms(1) by (auto simp add: ListResourceRepos_def split: if_splits)
  have "\<forall>r \<in> set repos. \<forall>v'.
          restored_entry c (re_pull_fault env) (sv_registry st) r = Some (k, v') \<longrightarrow> v' = v"
    using assms(2,3) listed_entry_unique unfolding repos by blast
  with assms(2,3)
  have "fst (restore_loop c (re_pull_fault env) (sv_registry st) repos (sv_resources st, 0)) k
          = Some v"
    by (rule restore_loop_sets)
  then show ?thesis using assms(1) by (simp add: Restore_resources)
qed

lemma patchy_listing:
  "ListResourceRepos main_client None (sv_registry patchy_server) = Inr [broken_info, web_info]"
  by (simp add: ListResourceRepos_def patchy_server_def main_client_def NewClient_def
        HasPrefix_def TrimPrefix_def SplitN2_def Let_def broken_info_def web_info_def)

lemma patchy_pull_broken:
  "PullResource main_client None ''default'' ''broken'' ''latest'' (sv_registry patchy_server)
     = Inl ErrFetchManifest"
  by (simp add: PullResource_def patchy_server_def first_push_eq tags_put_tag
        main_client_def NewClient_def resourceRepoPath_def empty_registry_def)

lemma patchy_pull_web:
  "(case PullResource main_client None ''default'' ''web-server'' ''latest''
           (sv_registry patchy_server) of
      Inl e \<Rightarrow> False
    | Inr (m', ann) \<Rightarrow> m' = ''size: medium'' \<and> ann AnnotationResourceDeleted \<noteq> Some ''true'')"
  by (simp add: PullResource_def patchy_server_def first_push_eq tags_put_tag
        main_client_def NewClient_def resourceRepoPath_def resource_manifest_def)

subsection \<open>Tombstones and the catalog repository\<close>

lemma tags_put_catalog:
  "tags (put_tag ''gitops-squared/catalog'' t m reg) (resourceRepoPath c ns name) =
   tags reg (resourceRepoPath c ns name)"
  using path_not_catalog [of c ns name] by (simp add: put_tag_def)

lemma cm_PushCatalog_tags:
  "tags (sv_registry (snd (cm_PushCatalog c' cd env st))) (resourceRepoPath c ns name) =
   tags (sv_registry st) (resourceRepoPath c ns name)"
  using cm_PushCatalog_registry [of c' cd env st] by (auto simp add: tags_put_catalog)

lemma Restore_tags:
  "tags (sv_registry (snd (Restore c' cd env st))) (resourceRepoPath c ns name) =
   tags (sv_registry st) (resourceRepoPath c ns name)"
  using Restore_registry [of c' cd env st] by (auto simp add: tags_put_catalog)

lemma DeleteResource_success:
  assumes "DeleteResource c cd env name st = (resp, st')" "status resp = 200"
  shows "\<exists>d v reg. PushTombstone c (de_push env) defaultNamespace name (sv_registry st)
                     = (Inr (d, v), reg) \<and>
           st' = snd (cm_PushCatalog c cd (de_catalog env)
                   \<lparr>sv_registry = reg,
                    sv_resources = cm_Delete defaultNamespace name (sv_resources st)\<rparr>)"
  using assms
  by (auto simp add: DeleteResource_def Let_def split: if_splits option.splits sum.splits
        prod.splits)

lemma tombstone_pull:
  assumes "tags reg (resourceRepoPath c ns name) ''latest'' = Some (tombstone_manifest ns name v cr)"
    and "PullResource c f ns name ''latest'' reg = Inr (b, ann)"
  shows "ann AnnotationResourceDeleted = Some ''true''"
  using assms
  by (auto simp add: PullResource_def tombstone_manifest_def map_add_def split: if_splits)

lemma tombstone_pull_ok:
  assumes "tags reg (resourceRepoPath c ns name) ''latest'' = Some (tombstone_manifest ns name v cr)"
  shows "\<exists>b ann. PullResource c None ns name ''latest'' reg = Inr (b, ann)"
  using assms by (simp add: PullResource_def tombstone_manifest_def)

lemma Restore_tombstoned:
  assumes t: "tags (sv_registry st) (resourceRepoPath c ns name) ''latest'' =
                Some (tombstone_manifest ns name v cr)"
    and ns: "CHR ''/'' \<notin> set ns"
  shows "sv_resources (snd (Restore c cd env st)) (ns @ ''/'' @ name) =
         sv_resources st (ns @ ''/'' @ name)"
proof (cases "ListResourceRepos c (re_list_fault env) (sv_registry st)")
  case (Inl e)
  then show ?thesis by (simp add: Restore_resources)
next
  case (Inr repos)
  then have repos: "repos = collect_repos c (repositories (sv_registry st))"
    by (auto simp add: ListResourceRepos_def split: if_splits)
  have "\<forall>repo \<in> set repos. \<forall>b.
          restored_entry c (re_pull_fault env) (sv_registry st) repo \<noteq> Some (ns @ ''/'' @ name, b)"
  proof (intro ballI allI notI)
    fix repo b
    assume m: "repo \<in> set repos"
      and e: "restored_entry c (re_pull_fault env) (sv_registry st) repo
                = Some (ns @ ''/'' @ name, b)"
    have "info_Namespace repo @ ''/'' @ info_Name repo = ns @ ''/'' @ name"
      using restored_entry_SomeD(1) [OF e] by simp
    then have eq: "info_Namespace repo = ns \<and> info_Name repo = name"
      using collect_repos_info(3) [OF m [unfolded repos]] ns by (rule key_inject)
    from restored_entry_SomeD(2) [OF e] obtain ann where
      "PullResource c (re_pull_fault env ns name) ns name ''latest'' (sv_registry st)
         = Inr (b, ann)" "ann AnnotationResourceDeleted \<noteq> Some ''true''"
      using eq by auto
    with tombstone_pull [OF t] show False by blast
  qed
  then show ?thesis using Inr by (simp add: Restore_resources restore_loop_frame)
qed

subsection \<open>Publishing the catalog\<close>

lemma PushCatalog_no_fault:
  "ce_fault env = None \<Longrightarrow>
   PushCatalog c env tgz reg =
     (Inr (Digest (catalog_manifest (ce_created env) tgz)),
      put_tag ''gitops-squared/catalog'' ''latest'' (catalog_manifest (ce_created env) tgz) reg)"
  by (simp add: PushCatalog_def Let_def catalog_manifest_def)

lemma cm_PushCatalog_no_fault:
  assumes "buildCatalogTarGz cd (range_map (ce_order env) (sv_resources st)) = Inr tgz"
    and "ce_fault env = None"
  shows "cm_PushCatalog c cd env st =
           (None, st\<lparr>sv_registry :=
                       put_tag ''gitops-squared/catalog'' ''latest''
                         (catalog_manifest (ce_created env) tgz) (sv_registry st)\<rparr>)"
  using assms by (simp add: cm_PushCatalog_def PushCatalog_no_fault)

subsection \<open>Creating a resource\<close>

lemma ToKubernetesYAML_name:
  "req_Name (snd (ToKubernetesYAML cd t r ns v)) = req_Name r"
  by (simp add: ToKubernetesYAML_def Let_def)

lemma repositories_put_tag: "path \<in> set (repositories (put_tag path t m reg))"
  by (simp add: put_tag_def)

lemma repositories_put_tag_mono:
  "p \<in> set (repositories reg) \<Longrightarrow> p \<in> set (repositories (put_tag path t m reg))"
  by (simp add: put_tag_def)

lemma cm_PushCatalog_repositories:
  "p \<in> set (repositories (sv_registry st)) \<Longrightarrow>
   p \<in> set (repositories (sv_registry (snd (cm_PushCatalog c cd env st))))"
  using cm_PushCatalog_registry [of c cd env st] by (auto simp add: repositories_put_tag_mono)

lemma CreateResource_success:
  assumes "CreateResource c cd env (Some req) st = (resp, st')" "status resp = 201"
  shows "\<exists>y1 y2 d reg.
           fst (ToKubernetesYAML cd (cr_pushed_at1 env) req defaultNamespace ''pending'') = Inr y1 \<and>
           PushResource c (cr_push env) defaultNamespace (req_Name req) y1 (sv_registry st)
             = (Inr (d, ''v'' @ Sprintf_d (pe_now (cr_push env))), reg) \<and>
           fst (ToKubernetesYAML cd (cr_pushed_at2 env)
                  (snd (ToKubernetesYAML cd (cr_pushed_at1 env) req defaultNamespace ''pending''))
                  defaultNamespace (''v'' @ Sprintf_d (pe_now (cr_push env)))) = Inr y2 \<and>
           st' = snd (cm_PushCatalog c cd (cr_catalog env)
                   \<lparr>sv_registry = reg,
                    sv_resources = cm_Set defaultNamespace (req_Name req) y2 (sv_resources st)\<rparr>)"
proof -
  obtain r1 q1 where t1: "ToKubernetesYAML cd (cr_pushed_at1 env) req defaultNamespace ''pending''
                            = (r1, q1)"
    by (cases "ToKubernetesYAML cd (cr_pushed_at1 env) req defaultNamespace ''pending''")
  have n1: "req_Name q1 = req_Name req"
    using ToKubernetesYAML_name [of cd "cr_pushed_at1 env" req defaultNamespace "''pending''"] t1
    by simp
  from assms t1 obtain y1 where y1: "r1 = Inr y1" and v: "Validate req = None"
    by (cases r1; cases "Validate req") (auto simp add: CreateResource_def)
  obtain pr reg where p: "PushResource c (cr_push env) defaultNamespace (req_Name req) y1
                            (sv_registry st) = (pr, reg)"
    by (cases "PushResource c (cr_push env) defaultNamespace (req_Name req) y1 (sv_registry st)")
  from assms t1 y1 v p n1 obtain d ver where pr: "pr = Inr (d, ver)"
    by (cases pr) (auto simp add: CreateResource_def)
  have ver: "ver = ''v'' @ Sprintf_d (pe_now (cr_push env))"
    using PushResource_success(1) [OF p [unfolded pr]] .
  obtain r2 q2 where t2: "ToKubernetesYAML cd (cr_pushed_at2 env) q1 defaultNamespace ver = (r2, q2)"
    by (cases "ToKubernetesYAML cd (cr_pushed_at2 env) q1 defaultNamespace ver")
  have n2: "req_Name q2 = req_Name req"
    using ToKubernetesYAML_name [of cd "cr_pushed_at2 env" q1 defaultNamespace ver] t2 n1
    by simp
  from assms t1 y1 v p n1 pr t2 obtain y2 where y2: "r2 = Inr y2"
    by (cases r2) (auto simp add: CreateResource_def)
  have "st' = snd (cm_PushCatalog c cd (cr_catalog env)
                   \<lparr>sv_registry = reg,
                    sv_resources = cm_Set defaultNamespace (req_Name req) y2 (sv_resources st)\<rparr>)"
    using assms t1 y1 v p n1 pr t2 y2 n2
    by (auto simp add: CreateResource_def Let_def split: prod.splits)
  with t1 y1 p pr ver t2 y2 show ?thesis by auto
qed

lemma restored_entry_resource:
  assumes "tags reg (resourceRepoPath c ns name) ''latest'' = Some (resource_manifest ns name v cr y)"
    and "pf ns name = None"
  shows "restored_entry c pf reg
           \<lparr>info_Repository = r, info_Namespace = ns, info_Name = name, info_Digest = dg,
            info_Version = vs\<rparr> = Some (ns @ ''/'' @ name, y)"
  using assms
  by (simp add: restored_entry_def PullResource_def resource_manifest_def map_add_def)

lemma Restore_published:
  assumes t: "tags (sv_registry s) (resourceRepoPath c ns name) ''latest''
                = Some (resource_manifest ns name v cr y)"
    and l: "resourceRepoPath c ns name \<in> set (repositories (sv_registry s))"
    and ns: "CHR ''/'' \<notin> set ns"
    and f: "re_list_fault renv = None" "re_pull_fault renv ns name = None"
  shows "sv_resources (snd (Restore c cd renv s)) (ns @ ''/'' @ name) = Some y"
proof -
  let ?i = "\<lparr>info_Repository = resourceRepoPath c ns name, info_Namespace = ns,
             info_Name = name, info_Digest = [], info_Version = []\<rparr>"
  have 1: "ListResourceRepos c (re_list_fault renv) (sv_registry s) =
             Inr (collect_repos c (repositories (sv_registry s)))"
    by (simp add: ListResourceRepos_def f(1))
  have 2: "?i \<in> set (collect_repos c (repositories (sv_registry s)))"
    using l ns by (rule collect_repos_mem)
  have 3: "restored_entry c (re_pull_fault renv) (sv_registry s) ?i = Some (ns @ ''/'' @ name, y)"
    using t f(2) by (rule restored_entry_resource)
  show ?thesis using 1 2 3 by (rule Restore_sets_listed)
qed

lemma published_entries:
  assumes cr: "CreateResource c cd env (Some req) st = (resp, st')" and ok: "status resp = 201"
  shows "resourceRepoPath c defaultNamespace (req_Name req) \<in> set (repositories (sv_registry st'))"
    and "map_option Inr (sv_resources st' (defaultNamespace @ ''/'' @ req_Name req)) =
           Some (fst (ToKubernetesYAML cd (cr_pushed_at2 env)
                        (snd (ToKubernetesYAML cd (cr_pushed_at1 env) req defaultNamespace
                                ''pending''))
                        defaultNamespace (''v'' @ Sprintf_d (pe_now (cr_push env)))))"
    and "tags (sv_registry s) (resourceRepoPath c defaultNamespace (req_Name req)) ''latest'' =
           tags (sv_registry st') (resourceRepoPath c defaultNamespace (req_Name req)) ''latest''
         \<Longrightarrow> resourceRepoPath c defaultNamespace (req_Name req) \<in> set (repositories (sv_registry s))
         \<Longrightarrow> re_list_fault renv = None
         \<Longrightarrow> re_pull_fault renv defaultNamespace (req_Name req) = None
         \<Longrightarrow> map_option Inr (sv_resources (snd (Restore c cd' renv s))
                               (defaultNamespace @ ''/'' @ req_Name req)) =
               Some (fst (ToKubernetesYAML cd (cr_pushed_at1 env) req defaultNamespace ''pending''))"
proof -
  let ?v = "''v'' @ Sprintf_d (pe_now (cr_push env))"
  let ?path = "resourceRepoPath c defaultNamespace (req_Name req)"
  from CreateResource_success [OF cr ok] obtain y1 y2 d reg where
    y1: "fst (ToKubernetesYAML cd (cr_pushed_at1 env) req defaultNamespace ''pending'') = Inr y1"
    and p: "PushResource c (cr_push env) defaultNamespace (req_Name req) y1 (sv_registry st)
              = (Inr (d, ?v), reg)"
    and y2: "fst (ToKubernetesYAML cd (cr_pushed_at2 env)
                  (snd (ToKubernetesYAML cd (cr_pushed_at1 env) req defaultNamespace ''pending''))
                  defaultNamespace ?v) = Inr y2"
    and st': "st' = snd (cm_PushCatalog c cd (cr_catalog env)
                   \<lparr>sv_registry = reg,
                    sv_resources = cm_Set defaultNamespace (req_Name req) y2 (sv_resources st)\<rparr>)"
    by blast
  let ?m = "resource_manifest defaultNamespace (req_Name req) ?v (pe_created (cr_push env)) y1"
  have reg: "reg = put_tag ?path ''latest'' ?m (put_tag ?path ?v ?m (sv_registry st))"
    using PushResource_success(3) [OF p] .
  have "?path \<in> set (repositories reg)" unfolding reg by (rule repositories_put_tag)
  then show "?path \<in> set (repositories (sv_registry st'))"
    unfolding st' by (simp add: cm_PushCatalog_repositories)
  show "map_option Inr (sv_resources st' (defaultNamespace @ ''/'' @ req_Name req)) =
           Some (fst (ToKubernetesYAML cd (cr_pushed_at2 env)
                        (snd (ToKubernetesYAML cd (cr_pushed_at1 env) req defaultNamespace
                                ''pending''))
                        defaultNamespace ?v))"
    using y2 by (simp add: st' cm_PushCatalog_resources cm_Set_def)
  have t: "tags (sv_registry st') ?path ''latest'' = Some ?m"
    by (simp add: st' cm_PushCatalog_tags reg tags_put_tag)
  assume "tags (sv_registry s) ?path ''latest'' = tags (sv_registry st') ?path ''latest''"
    and l: "?path \<in> set (repositories (sv_registry s))"
    and f: "re_list_fault renv = None" "re_pull_fault renv defaultNamespace (req_Name req) = None"
  with t have ts: "tags (sv_registry s) ?path ''latest'' = Some ?m" by simp
  have sl: "CHR ''/'' \<notin> set defaultNamespace" by simp
  have "sv_resources (snd (Restore c cd' renv s)) (defaultNamespace @ ''/'' @ req_Name req)
          = Some y1"
    using ts l sl f by (rule Restore_published)
  then show "map_option Inr (sv_resources (snd (Restore c cd' renv s))
                               (defaultNamespace @ ''/'' @ req_Name req)) =
               Some (fst (ToKubernetesYAML cd (cr_pushed_at1 env) req defaultNamespace ''pending''))"
    using y1 by simp
qed

lemma created_server_status:
  "status (fst (CreateResource main_client plain_codec (create_at 1770731425 [])
                  (Some web_server) empty_server)) = 201"
  by (simp add: CreateResource_def Validate_def web_server_def validTypes_def validSizes_def
        ToKubernetesYAML_def plain_codec_def plain_yaml_def create_at_def
        PushResource_no_fault push_at_def Let_def split: prod.splits)

lemma created_server_eq:
  "CreateResource main_client plain_codec (create_at 1770731425 []) (Some web_server) empty_server
     = (fst (CreateResource main_client plain_codec (create_at 1770731425 [])
               (Some web_server) empty_server), created_server)"
  by (simp add: created_server_def)

lemma pending_yaml:
  "fst (ToKubernetesYAML plain_codec ''2026-02-10T13:50:25Z'' web_server defaultNamespace
          ''pending'') \<noteq>
   fst (ToKubernetesYAML plain_codec ''2026-02-10T13:50:25Z''
          (snd (ToKubernetesYAML plain_codec ''2026-02-10T13:50:25Z'' web_server
                  defaultNamespace ''pending''))
          defaultNamespace ''v1770731425'')"
  by (simp add: ToKubernetesYAML_def plain_codec_def plain_yaml_def yaml_pairs_def web_server_def
        Let_def)

subsection \<open>The members of the archive\<close>

lemma write_entries_eq:
  "write_entries kvs (fs, ws) =
     (fs @ map (\<lambda>(k, b). ReplaceAll_slash k @ ''.yaml'') kvs,
      ws @ map (\<lambda>(k, b). \<lparr>tf_Name = ''manifests/'' @ ReplaceAll_slash k @ ''.yaml'',
                            tf_Mode = 420, tf_Size = int (length b), tf_Body = b\<rparr>) kvs)"
  by (induction kvs arbitrary: fs ws) (auto simp add: Let_def)

lemma catalog_members_eq:
  "catalog_members kvs =
     map (\<lambda>(k, b). \<lparr>tf_Name = ''manifests/'' @ ReplaceAll_slash k @ ''.yaml'',
                     tf_Mode = 420, tf_Size = int (length b), tf_Body = b\<rparr>) kvs @
     [\<lparr>tf_Name = ''manifests/kustomization.yaml'', tf_Mode = 420,
       tf_Size = int (length (buildKustomization
                                (map (\<lambda>(k, b). ReplaceAll_slash k @ ''.yaml'') kvs))),
       tf_Body = buildKustomization (map (\<lambda>(k, b). ReplaceAll_slash k @ ''.yaml'') kvs)\<rparr>]"
  by (simp add: catalog_members_def write_entries_eq Let_def)

lemma split_lines_line:
  "CHR 0x0A \<notin> set l \<Longrightarrow>
   split_lines cur (l @ CHR 0x0A # rest) = (cur @ l) # split_lines [] rest"
  by (induction l arbitrary: cur) auto

lemma split_lines_items:
  "\<forall>f \<in> set fs. CHR 0x0A \<notin> set f \<Longrightarrow>
   split_lines [] (concat (map (\<lambda>f. ''  - '' @ f @ [CHR 0x0A]) fs) @ rest) =
     map (\<lambda>f. ''  - '' @ f) fs @ split_lines [] rest"
proof (induction fs)
  case Nil
  then show ?case by simp
next
  case (Cons f fs)
  have "CHR 0x0A \<notin> set (''  - '' @ f)" using Cons.prems by simp
  from split_lines_line [OF this, of "[]"
         "concat (map (\<lambda>f. ''  - '' @ f @ [CHR 0x0A]) fs) @ rest"]
  show ?case using Cons by simp
qed

lemma split_lines_kustomization:
  assumes "\<forall>f \<in> set fs. CHR 0x0A \<notin> set f"
  shows "split_lines [] (buildKustomization fs) =
           [''apiVersion: kustomize.config.k8s.io/v1beta1'', ''kind: Kustomization'',
            ''resources:''] @ map (\<lambda>f. ''  - '' @ f) fs @ (if fs = [] then [''  []''] else [])"
proof -
  let ?items = "concat (map (\<lambda>f. ''  - '' @ f @ [CHR 0x0A]) fs)"
  let ?tail = "if length fs = 0 then ''  []'' @ [CHR 0x0A] else []"
  have b: "buildKustomization fs =
             ''apiVersion: kustomize.config.k8s.io/v1beta1'' @ CHR 0x0A #
             (''kind: Kustomization'' @ CHR 0x0A # (''resources:'' @ CHR 0x0A # (?items @ ?tail)))"
    by (simp add: buildKustomization_def)
  have t: "split_lines [] ?tail = (if fs = [] then [''  []''] else [])"
    by simp
  have h1: "split_lines [] (''apiVersion: kustomize.config.k8s.io/v1beta1'' @ CHR 0x0A # X) =
              ''apiVersion: kustomize.config.k8s.io/v1beta1'' # split_lines [] X" for X
    using split_lines_line [of "''apiVersion: kustomize.config.k8s.io/v1beta1''" "[]" X] by simp
  have h2: "split_lines [] (''kind: Kustomization'' @ CHR 0x0A # X) =
              ''kind: Kustomization'' # split_lines [] X" for X
    using split_lines_line [of "''kind: Kustomization''" "[]" X] by simp
  have h3: "split_lines [] (''resources:'' @ CHR 0x0A # X) =
              ''resources:'' # split_lines [] X" for X
    using split_lines_line [of "''resources:''" "[]" X] by simp
  show ?thesis
    unfolding b h1 h2 h3 split_lines_items [OF assms] t by simp
qed

lemma listed_resources_kustomization:
  assumes "\<forall>f \<in> set fs. CHR 0x0A \<notin> set f"
  shows "listed_resources (buildKustomization fs) = fs"
proof -
  have "filter (\<lambda>l. take 4 l = ''  - '') (map (\<lambda>f. ''  - '' @ f) fs) = map (\<lambda>f. ''  - '' @ f) fs"
    by (induction fs) auto
  then show ?thesis
    by (simp add: listed_resources_def split_lines_kustomization [OF assms] comp_def)
qed

lemma entry_name_not_kustomization:
  assumes "CHR ''/'' \<in> set k"
  shows "''manifests/'' @ ReplaceAll_slash k @ ''.yaml'' \<noteq> ''manifests/kustomization.yaml''"
proof
  assume "''manifests/'' @ ReplaceAll_slash k @ ''.yaml'' = ''manifests/kustomization.yaml''"
  then have "ReplaceAll_slash k @ ''.yaml'' = ''kustomization'' @ ''.yaml''" by simp
  then have "ReplaceAll_slash k = ''kustomization''" by (simp only: append_same_eq)
  moreover have "CHR ''-'' \<in> set (ReplaceAll_slash k)"
    using assms by (force simp add: ReplaceAll_slash_def)
  ultimately show False by simp
qed

lemma demo_listed:
  "listed_resources (tf_Body (last (catalog_members demo_entries))) =
     [''default-web-server.yaml'', ''default-app-db.yaml'']"
  "listed_resources (tf_Body (last (catalog_members (rev demo_entries)))) =
     [''default-app-db.yaml'', ''default-web-server.yaml'']"
proof -
  have n: "\<forall>f \<in> set [''default-web-server.yaml'', ''default-app-db.yaml''].
             CHR 0x0A \<notin> set f"
    "\<forall>f \<in> set [''default-app-db.yaml'', ''default-web-server.yaml''].
             CHR 0x0A \<notin> set f"
    by simp_all
  show "listed_resources (tf_Body (last (catalog_members demo_entries))) =
     [''default-web-server.yaml'', ''default-app-db.yaml'']"
    using listed_resources_kustomization [OF n(1)]
    by (simp add: catalog_members_eq demo_entries_def ReplaceAll_slash_def)
  show "listed_resources (tf_Body (last (catalog_members (rev demo_entries)))) =
     [''default-app-db.yaml'', ''default-web-server.yaml'']"
    using listed_resources_kustomization [OF n(2)]
    by (simp add: catalog_members_eq demo_entries_def ReplaceAll_slash_def)
qed

subsection \<open>What an event leaves alone\<close>

lemma resourceRepoPath_inject:
  "resourceRepoPath c ns n = resourceRepoPath c ns n' \<longleftrightarrow> n = n'"
  by (simp add: resourceRepoPath_def)

lemma untouched_refl: "untouched path reg reg"
  by (simp add: untouched_def)

lemma untouched_trans: "untouched path a b \<Longrightarrow> untouched path b d \<Longrightarrow> untouched path a d"
  by (simp add: untouched_def)

lemma untouched_put_tag: "p \<noteq> path \<Longrightarrow> untouched path reg (put_tag p t m reg)"
  by (simp add: untouched_def put_tag_def)

lemma untouched_PushResource:
  assumes "n \<noteq> name"
  shows "untouched (resourceRepoPath c ns name) reg (snd (PushResource c env ns n y reg))"
proof -
  have ne: "resourceRepoPath c ns n \<noteq> resourceRepoPath c ns name"
    using assms by (simp add: resourceRepoPath_inject)
  show ?thesis
    by (simp add: PushResource_def Let_def untouched_refl untouched_put_tag [OF ne]
          untouched_trans [OF untouched_put_tag [OF ne] untouched_put_tag [OF ne]])
qed

lemma untouched_PushTombstone:
  assumes "n \<noteq> name"
  shows "untouched (resourceRepoPath c ns name) reg (snd (PushTombstone c env ns n reg))"
proof -
  have ne: "resourceRepoPath c ns n \<noteq> resourceRepoPath c ns name"
    using assms by (simp add: resourceRepoPath_inject)
  show ?thesis
    by (simp add: PushTombstone_def Let_def untouched_refl untouched_put_tag [OF ne]
          untouched_trans [OF untouched_put_tag [OF ne] untouched_put_tag [OF ne]])
qed

lemma untouched_cm_PushCatalog:
  "untouched (resourceRepoPath c ns name) (sv_registry st)
     (sv_registry (snd (cm_PushCatalog c' cd env st)))"
proof -
  have ne: "''gitops-squared/catalog'' \<noteq> resourceRepoPath c ns name"
    using path_not_catalog [of c ns name] by simp
  from cm_PushCatalog_registry [of c' cd env st]
  consider "sv_registry (snd (cm_PushCatalog c' cd env st)) = sv_registry st"
    | m where "sv_registry (snd (cm_PushCatalog c' cd env st)) =
                 put_tag ''gitops-squared/catalog'' ''latest'' m (sv_registry st)"
    by blast
  then show ?thesis
  proof cases
    case 1
    then show ?thesis by (simp add: untouched_refl)
  next
    case 2
    then show ?thesis by (simp add: untouched_put_tag [OF ne])
  qed
qed

lemma untouched_Restore:
  "untouched (resourceRepoPath c ns name) (sv_registry st) (sv_registry (snd (Restore c' cd env st)))"
proof -
  have ne: "''gitops-squared/catalog'' \<noteq> resourceRepoPath c ns name"
    using path_not_catalog [of c ns name] by simp
  from Restore_registry [of c' cd env st]
  consider "sv_registry (snd (Restore c' cd env st)) = sv_registry st"
    | m where "sv_registry (snd (Restore c' cd env st)) =
                 put_tag ''gitops-squared/catalog'' ''latest'' m (sv_registry st)"
    by blast
  then show ?thesis
  proof cases
    case 1
    then show ?thesis by (simp add: untouched_refl)
  next
    case 2
    then show ?thesis by (simp add: untouched_put_tag [OF ne])
  qed
qed

lemma untouched_CreateResource:
  assumes "\<forall>req. decoded = Some req \<longrightarrow> req_Name req \<noteq> name"
  shows "untouched (resourceRepoPath c defaultNamespace name) (sv_registry st)
           (sv_registry (snd (CreateResource c cd env decoded st)))"
proof (cases decoded)
  case None
  then show ?thesis by (simp add: CreateResource_def untouched_refl)
next
  case (Some req)
  with assms have ne: "req_Name req \<noteq> name" by simp
  show ?thesis
  proof (cases "Validate req")
    case (Some e)
    with \<open>decoded = Some req\<close> show ?thesis by (simp add: CreateResource_def untouched_refl)
  next
    case None
    obtain r1 q1 where t1: "ToKubernetesYAML cd (cr_pushed_at1 env) req defaultNamespace ''pending''
                              = (r1, q1)"
      by (cases "ToKubernetesYAML cd (cr_pushed_at1 env) req defaultNamespace ''pending''")
    have n1: "req_Name q1 = req_Name req"
      using ToKubernetesYAML_name [of cd "cr_pushed_at1 env" req defaultNamespace "''pending''"] t1
      by simp
    show ?thesis
    proof (cases r1)
      case (Inl e)
      with \<open>decoded = Some req\<close> None t1 show ?thesis
        by (simp add: CreateResource_def untouched_refl)
    next
      case (Inr y1)
      obtain pr reg where p: "PushResource c (cr_push env) defaultNamespace (req_Name req) y1
                                (sv_registry st) = (pr, reg)"
        by (cases "PushResource c (cr_push env) defaultNamespace (req_Name req) y1
                     (sv_registry st)")
      have u1: "untouched (resourceRepoPath c defaultNamespace name) (sv_registry st) reg"
        using untouched_PushResource [OF ne, of c defaultNamespace "sv_registry st" "cr_push env" y1]
          p by simp
      show ?thesis
      proof (cases pr)
        case (Inl e)
        with \<open>decoded = Some req\<close> None t1 Inr p n1 u1 show ?thesis
          by (simp add: CreateResource_def)
      next
        case pr: (Inr dv)
        obtain d ver where dv: "dv = (d, ver)" by (cases dv)
        obtain r2 q2 where t2: "ToKubernetesYAML cd (cr_pushed_at2 env) q1 defaultNamespace ver
                                  = (r2, q2)"
          by (cases "ToKubernetesYAML cd (cr_pushed_at2 env) q1 defaultNamespace ver")
        show ?thesis
        proof (cases r2)
          case (Inl e)
          with \<open>decoded = Some req\<close> None t1 Inr p n1 u1 pr dv t2 show ?thesis
            by (simp add: CreateResource_def)
        next
          case y2: (Inr y2)
          let ?st1 = "\<lparr>sv_registry = reg,
                        sv_resources = cm_Set defaultNamespace (req_Name q2) y2 (sv_resources st)\<rparr>"
          have "snd (CreateResource c cd env decoded st) =
                  snd (cm_PushCatalog c cd (cr_catalog env) ?st1)"
            using \<open>decoded = Some req\<close> None t1 Inr p n1 pr dv t2 y2
            by (simp add: CreateResource_def Let_def split: prod.splits)
          moreover have "untouched (resourceRepoPath c defaultNamespace name) reg
                           (sv_registry (snd (cm_PushCatalog c cd (cr_catalog env) ?st1)))"
            using untouched_cm_PushCatalog [of c defaultNamespace name ?st1 c cd "cr_catalog env"]
            by simp
          ultimately show ?thesis using u1 untouched_trans by simp
        qed
      qed
    qed
  qed
qed

lemma untouched_DeleteResource:
  assumes "n \<noteq> name"
  shows "untouched (resourceRepoPath c defaultNamespace name) (sv_registry st)
           (sv_registry (snd (DeleteResource c cd env n st)))"
proof (cases "n = [] \<or> cm_Get defaultNamespace n (sv_resources st) = None")
  case True
  then show ?thesis by (auto simp add: DeleteResource_def untouched_refl)
next
  case False
  then obtain b where g: "n \<noteq> []" "cm_Get defaultNamespace n (sv_resources st) = Some b" by auto
  obtain pr reg where p: "PushTombstone c (de_push env) defaultNamespace n (sv_registry st)
                            = (pr, reg)"
    by (cases "PushTombstone c (de_push env) defaultNamespace n (sv_registry st)")
  have u1: "untouched (resourceRepoPath c defaultNamespace name) (sv_registry st) reg"
    using untouched_PushTombstone [OF assms, of c defaultNamespace "sv_registry st" "de_push env"]
      p by simp
  show ?thesis
  proof (cases pr)
    case (Inl e)
    with g p u1 show ?thesis by (simp add: DeleteResource_def)
  next
    case (Inr dv)
    obtain d ver where dv: "dv = (d, ver)" by (cases dv)
    let ?st1 = "\<lparr>sv_registry = reg,
                  sv_resources = cm_Delete defaultNamespace n (sv_resources st)\<rparr>"
    have "snd (DeleteResource c cd env n st) = snd (cm_PushCatalog c cd (de_catalog env) ?st1)"
      using g p Inr dv by (simp add: DeleteResource_def Let_def split: prod.splits)
    moreover have "untouched (resourceRepoPath c defaultNamespace name) reg
                     (sv_registry (snd (cm_PushCatalog c cd (de_catalog env) ?st1)))"
      using untouched_cm_PushCatalog [of c defaultNamespace name ?st1 c cd "de_catalog env"]
      by simp
    ultimately show ?thesis using u1 untouched_trans by simp
  qed
qed

lemma untouched_handle:
  assumes "\<not> concerns name e"
  shows "untouched (resourceRepoPath c defaultNamespace name) (sv_registry st)
           (sv_registry (handle c cd e st))"
proof (cases e)
  case (Create env decoded)
  with assms have "\<forall>req. decoded = Some req \<longrightarrow> req_Name req \<noteq> name" by auto
  then show ?thesis using Create by (simp add: untouched_CreateResource)
next
  case (Delete env n)
  with assms have "n \<noteq> name" by simp
  then show ?thesis using Delete by (simp add: untouched_DeleteResource)
next
  case (Restart env)
  show ?thesis
    using untouched_Restore [of c defaultNamespace name "st\<lparr>sv_resources := Map.empty\<rparr>" c cd env]
      Restart by simp
qed

lemma untouched_serve:
  assumes "\<forall>e \<in> set es. \<not> concerns name e"
  shows "untouched (resourceRepoPath c defaultNamespace name) (sv_registry st)
           (sv_registry (serve c cd es st))"
  using assms
proof (induction es arbitrary: st)
  case Nil
  then show ?case by (simp add: untouched_refl)
next
  case (Cons e es)
  have "untouched (resourceRepoPath c defaultNamespace name) (sv_registry st)
          (sv_registry (handle c cd e st))"
    using Cons.prems by (simp add: untouched_handle)
  moreover have "untouched (resourceRepoPath c defaultNamespace name)
          (sv_registry (handle c cd e st)) (sv_registry (serve c cd es (handle c cd e st)))"
    using Cons.prems by (intro Cons.IH) simp
  ultimately show ?case using untouched_trans by simp
qed

subsection \<open>Segments and the listing\<close>

lemma length_segments_from: "length (segments_from cur s) = Suc (slashes s)"
  by (induction s arbitrary: cur) (simp_all add: slashes_def)

lemma segments_single: "length (segments s) = 1 \<longleftrightarrow> CHR ''/'' \<notin> set s"
  by (auto simp add: segments_def length_segments_from slashes_def filter_empty_conv)

lemma SplitN2_length: "length (SplitN2 s) = 2 \<longleftrightarrow> CHR ''/'' \<in> set s"
  by (simp add: SplitN2_def)

lemma collect_repos_single:
  assumes "HasPrefix r (repoPrefix c @ ''/'')"
    and "length (segments (TrimPrefix r (repoPrefix c @ ''/''))) = 1"
  shows "collect_repos c (r # ys) = collect_repos c ys"
proof -
  have "CHR ''/'' \<notin> set (TrimPrefix r (repoPrefix c @ ''/''))"
    using assms(2) segments_single by blast
  then have "length (SplitN2 (TrimPrefix r (repoPrefix c @ ''/''))) \<noteq> 2"
    using SplitN2_length by blast
  then show ?thesis using assms(1) by simp
qed

lemma collect_repos_outside:
  "\<not> HasPrefix r (repoPrefix c @ ''/'') \<Longrightarrow> collect_repos c (r # ys) = collect_repos c ys"
  by simp

lemma collect_repos_split:
  assumes "CHR ''/'' \<notin> set ns"
  shows "collect_repos c (resourceRepoPath c ns name # ys) =
           \<lparr>info_Repository = resourceRepoPath c ns name, info_Namespace = ns, info_Name = name,
            info_Digest = [], info_Version = []\<rparr> # collect_repos c ys"
proof -
  have p: "resourceRepoPath c ns name = (repoPrefix c @ ''/'') @ (ns @ ''/'' @ name)"
    by (simp add: resourceRepoPath_def)
  have 1: "HasPrefix (resourceRepoPath c ns name) (repoPrefix c @ ''/'')"
    unfolding p by (rule HasPrefix_append)
  have 2: "TrimPrefix (resourceRepoPath c ns name) (repoPrefix c @ ''/'') = ns @ ''/'' @ name"
    unfolding p by (rule TrimPrefix_append)
  have 3: "SplitN2 (ns @ ''/'' @ name) = [ns, name]"
    using assms by (rule SplitN2_join)
  show ?thesis
    by (simp only: collect_repos.simps 1 2 3 Let_def) simp
qed

lemma slashed_registry:
  "sv_registry slashed_server =
     put_tag ''gitops-squared/resources/default/a/b'' ''latest''
       (resource_manifest ''default'' ''a/b'' ''v1770731425'' ''2026-02-10T13:50:25Z'' ''kind: X'')
       (put_tag ''gitops-squared/resources/default/a/b'' ''v1770731425''
          (resource_manifest ''default'' ''a/b'' ''v1770731425'' ''2026-02-10T13:50:25Z''
             ''kind: X'') empty_registry)"
  by (simp add: slashed_server_def PushResource_no_fault push_at_def Sprintf_d_demo
        main_client_def NewClient_def resourceRepoPath_def)

lemma slashed_path:
  "resourceRepoPath main_client ''default'' ''a/b'' = ''gitops-squared/resources/default/a/b''"
  by (simp add: main_client_def NewClient_def resourceRepoPath_def)

lemma slashed_restored:
  "sv_resources (snd (Restore main_client plain_codec (restore_ok []) slashed_server))
     ''default/a/b'' = Some ''kind: X''"
proof -
  have t: "tags (sv_registry slashed_server) (resourceRepoPath main_client ''default'' ''a/b'')
             ''latest'' =
           Some (resource_manifest ''default'' ''a/b'' ''v1770731425'' ''2026-02-10T13:50:25Z''
                   ''kind: X'')"
    by (simp add: slashed_registry slashed_path tags_put_tag)
  have l: "resourceRepoPath main_client ''default'' ''a/b''
             \<in> set (repositories (sv_registry slashed_server))"
    by (simp add: slashed_registry slashed_path put_tag_def empty_registry_def)
  have s: "CHR ''/'' \<notin> set ''default''" by simp
  have f: "re_list_fault (restore_ok []) = None"
    "re_pull_fault (restore_ok []) ''default'' ''a/b'' = None"
    by (simp_all add: restore_ok_def)
  show ?thesis
    using Restore_published [OF t l s f, of plain_codec] by simp
qed

section \<open>Retracting an unknown resource\<close>

text \<open>
  C10. \<open>DeleteResource\<close> for a name whose key is not in the catalog index leaves the
  whole state as it was: no tombstone reaches the registry and the index is unchanged.
  The answer is 404 Not Found (400 for the empty name, which is rejected before the lookup).
\<close>

theorem DeleteResource_absent:
  assumes "cm_Get defaultNamespace name (sv_resources st) = None"
  shows "snd (DeleteResource c cd env name st) = st \<and>
         status (fst (DeleteResource c cd env name st)) = (if name = [] then 400 else 404)"
  using assms by (simp add: DeleteResource_def)

theorem DeleteResource_absent_witness:
  "cm_Get defaultNamespace ''web-server'' (sv_resources empty_server) = None \<and>
   snd (DeleteResource main_client plain_codec (delete_at 1770731425 []) ''web-server''
          empty_server) = empty_server \<and>
   status (fst (DeleteResource main_client plain_codec (delete_at 1770731425 []) ''web-server''
                  empty_server)) = 404"
proof -
  have h: "cm_Get defaultNamespace ''web-server'' (sv_resources empty_server) = None"
    by (simp add: cm_Get_def empty_server_def)
  show ?thesis
    using h DeleteResource_absent [OF h, of main_client plain_codec "delete_at 1770731425 []"]
    by simp
qed

section \<open>Round trip\<close>

text \<open>
  C3. After a successful \<open>PushResource\<close>, \<open>PullResource\<close> at \<open>latest\<close> returns the
  manifest bytes that were pushed and annotations carrying the pushed resource name,
  namespace and version tag. A pull that an external failure interrupts returns an error;
  a pull that returns, returns exactly that result.
\<close>

theorem round_trip:
  assumes "PushResource c env ns name manifest reg = (Inr (d, v), reg')"
  shows "(case PullResource c None ns name ''latest'' reg' of
            Inl e \<Rightarrow> False
          | Inr (b, ann) \<Rightarrow>
              b = manifest \<and> ann AnnotationResourceName = Some name \<and>
              ann AnnotationResourceNamespace = Some ns \<and>
              ann AnnotationResourceVersion = Some v) \<and>
         (case PullResource c f ns name ''latest'' reg' of
            Inl e \<Rightarrow> True
          | Inr r \<Rightarrow> PullResource c None ns name ''latest'' reg' = Inr r)"
proof -
  let ?m = "resource_manifest ns name v (pe_created env) manifest"
  have t: "tags reg' (resourceRepoPath c ns name) ''latest'' = Some ?m"
    by (simp add: PushResource_success(3) [OF assms] tags_put_tag)
  obtain l where l: "m_layers ?m = [l]" "d_data l = manifest"
    "d_annotations l AnnotationResourceName = Some name"
    "d_annotations l AnnotationResourceNamespace = Some ns"
    "d_annotations l AnnotationResourceVersion = Some v"
    by (simp add: resource_manifest_def)
  have 1: "PullResource c None ns name ''latest'' reg' =
             Inr (manifest, m_annotations ?m ++ d_annotations l)"
    using PullResource_tagged(1) [OF t l(1)] l(2) by simp
  have 2: "PullResource c f ns name ''latest'' reg' = Inr r \<Longrightarrow>
             r = (manifest, m_annotations ?m ++ d_annotations l)" for r
    using PullResource_tagged(2) [OF t l(1)] l(2) by simp
  show ?thesis
    using 1 2 l(3-5) by (auto simp add: map_add_def split: sum.splits)
qed

theorem round_trip_witness:
  "PushResource main_client (push_at 1770731425) ''default'' ''web-server'' ''kind: X'' empty_registry
     = (Inr (Digest (resource_manifest ''default'' ''web-server'' ''v1770731425''
                       ''2026-02-10T13:50:25Z'' ''kind: X''), ''v1770731425''),
        put_tag ''gitops-squared/resources/default/web-server'' ''latest''
          (resource_manifest ''default'' ''web-server'' ''v1770731425''
                       ''2026-02-10T13:50:25Z'' ''kind: X'')
          (put_tag ''gitops-squared/resources/default/web-server'' ''v1770731425''
             (resource_manifest ''default'' ''web-server'' ''v1770731425''
                       ''2026-02-10T13:50:25Z'' ''kind: X'') empty_registry)) \<and>
   map_sum id fst
     (PullResource main_client None ''default'' ''web-server'' ''latest''
       (snd (PushResource main_client (push_at 1770731425) ''default'' ''web-server'' ''kind: X''
               empty_registry))) = Inr ''kind: X''"
proof -
  have v: "Sprintf_d 1770731425 = ''1770731425''"
    by (simp add: Sprintf_d_def decimal.simps)
  have p: "PushResource main_client (push_at 1770731425) ''default'' ''web-server'' ''kind: X'' empty_registry
     = (Inr (Digest (resource_manifest ''default'' ''web-server'' ''v1770731425''
                       ''2026-02-10T13:50:25Z'' ''kind: X''), ''v1770731425''),
        put_tag ''gitops-squared/resources/default/web-server'' ''latest''
          (resource_manifest ''default'' ''web-server'' ''v1770731425''
                       ''2026-02-10T13:50:25Z'' ''kind: X'')
          (put_tag ''gitops-squared/resources/default/web-server'' ''v1770731425''
             (resource_manifest ''default'' ''web-server'' ''v1770731425''
                       ''2026-02-10T13:50:25Z'' ''kind: X'') empty_registry))"
    by (simp add: PushResource_no_fault push_at_def v main_client_def NewClient_def
          resourceRepoPath_def)
  show ?thesis
    using p round_trip [OF p, of None] by (auto split: sum.splits)
qed

section \<open>Version tags and the alias latest\<close>

text \<open>
  C8, as the code has it. A successful \<open>PushResource\<close> or \<open>PushTombstone\<close> writes the
  manifest it packed under the tag \<open>v\<close> followed by the Unix time of the push, points
  \<open>latest\<close> of the same repository at that manifest, returns its digest, and leaves every
  other tag of every repository as it was. The version tag is different from \<open>latest\<close>;
  it is the one tag besides \<open>latest\<close> that the push may move.
\<close>

theorem push_writes_version_and_latest:
  "(PushResource c env ns name manifest reg = (Inr (d, v), reg') \<longrightarrow>
      v = ''v'' @ Sprintf_d (pe_now env) \<and> v \<noteq> ''latest'' \<and>
      d = Digest (resource_manifest ns name v (pe_created env) manifest) \<and>
      tags reg' (resourceRepoPath c ns name) v =
        Some (resource_manifest ns name v (pe_created env) manifest) \<and>
      tags reg' (resourceRepoPath c ns name) ''latest'' =
        Some (resource_manifest ns name v (pe_created env) manifest) \<and>
      (\<forall>p t. \<not> (p = resourceRepoPath c ns name \<and> (t = ''latest'' \<or> t = v)) \<longrightarrow>
             tags reg' p t = tags reg p t)) \<and>
   (PushTombstone c env ns name reg = (Inr (d, v), reg') \<longrightarrow>
      v = ''v'' @ Sprintf_d (pe_now env) \<and> v \<noteq> ''latest'' \<and>
      d = Digest (tombstone_manifest ns name v (pe_created env)) \<and>
      tags reg' (resourceRepoPath c ns name) v =
        Some (tombstone_manifest ns name v (pe_created env)) \<and>
      tags reg' (resourceRepoPath c ns name) ''latest'' =
        Some (tombstone_manifest ns name v (pe_created env)) \<and>
      (\<forall>p t. \<not> (p = resourceRepoPath c ns name \<and> (t = ''latest'' \<or> t = v)) \<longrightarrow>
             tags reg' p t = tags reg p t))"
proof (intro conjI impI)
  assume a: "PushResource c env ns name manifest reg = (Inr (d, v), reg')"
  note s = PushResource_success [OF a]
  show "v = ''v'' @ Sprintf_d (pe_now env)" by (rule s(1))
  show "v \<noteq> ''latest''" using s(1) by simp
  show "d = Digest (resource_manifest ns name v (pe_created env) manifest)" by (rule s(2))
  show "tags reg' (resourceRepoPath c ns name) v =
        Some (resource_manifest ns name v (pe_created env) manifest)"
    by (simp add: s(3) tags_put_tag)
  show "tags reg' (resourceRepoPath c ns name) ''latest'' =
        Some (resource_manifest ns name v (pe_created env) manifest)"
    by (simp add: s(3) tags_put_tag)
  show "\<forall>p t. \<not> (p = resourceRepoPath c ns name \<and> (t = ''latest'' \<or> t = v)) \<longrightarrow>
             tags reg' p t = tags reg p t"
    by (auto simp add: s(3) tags_put_tag)
next
  assume a: "PushTombstone c env ns name reg = (Inr (d, v), reg')"
  note s = PushTombstone_success [OF a]
  show "v = ''v'' @ Sprintf_d (pe_now env)" by (rule s(1))
  show "v \<noteq> ''latest''" using s(1) by simp
  show "d = Digest (tombstone_manifest ns name v (pe_created env))" by (rule s(2))
  show "tags reg' (resourceRepoPath c ns name) v =
        Some (tombstone_manifest ns name v (pe_created env))"
    by (simp add: s(3) tags_put_tag)
  show "tags reg' (resourceRepoPath c ns name) ''latest'' =
        Some (tombstone_manifest ns name v (pe_created env))"
    by (simp add: s(3) tags_put_tag)
  show "\<forall>p t. \<not> (p = resourceRepoPath c ns name \<and> (t = ''latest'' \<or> t = v)) \<longrightarrow>
             tags reg' p t = tags reg p t"
    by (auto simp add: s(3) tags_put_tag)
qed

theorem push_writes_version_and_latest_witness:
  "PushResource main_client (push_at 1770731425) ''default'' ''web-server'' ''size: medium''
     empty_registry =
     (Inr (Digest (resource_manifest ''default'' ''web-server'' ''v1770731425''
                     ''2026-02-10T13:50:25Z'' ''size: medium''), ''v1770731425''),
      snd first_push) \<and>
   tags (snd first_push) (resourceRepoPath main_client ''default'' ''web-server'') ''latest'' =
     Some (resource_manifest ''default'' ''web-server'' ''v1770731425''
             ''2026-02-10T13:50:25Z'' ''size: medium'') \<and>
   PushTombstone main_client (push_at 1770731500) ''default'' ''web-server'' (snd first_push) =
     (Inr (Digest (tombstone_manifest ''default'' ''web-server'' ''v1770731500''
                     ''2026-02-10T13:50:25Z''), ''v1770731500''),
      snd tombstone_push) \<and>
   tags (snd tombstone_push) (resourceRepoPath main_client ''default'' ''web-server'') ''latest'' =
     Some (tombstone_manifest ''default'' ''web-server'' ''v1770731500'' ''2026-02-10T13:50:25Z'')"
proof -
  have p1: "PushResource main_client (push_at 1770731425) ''default'' ''web-server''
              ''size: medium'' empty_registry =
     (Inr (Digest (resource_manifest ''default'' ''web-server'' ''v1770731425''
                     ''2026-02-10T13:50:25Z'' ''size: medium''), ''v1770731425''),
      snd first_push)"
    using first_push_eq by (simp add: first_push_def)
  have p2: "PushTombstone main_client (push_at 1770731500) ''default'' ''web-server''
              (snd first_push) =
     (Inr (Digest (tombstone_manifest ''default'' ''web-server'' ''v1770731500''
                     ''2026-02-10T13:50:25Z''), ''v1770731500''),
      snd tombstone_push)"
    using tombstone_push_eq by (simp add: tombstone_push_def)
  have c: "pe_created (push_at 1770731425) = ''2026-02-10T13:50:25Z''"
          "pe_created (push_at 1770731500) = ''2026-02-10T13:50:25Z''"
    by (simp_all add: push_at_def)
  from push_writes_version_and_latest
         [of main_client "push_at 1770731425" "''default''" "''web-server''" "''size: medium''"
             empty_registry _ "''v1770731425''" "snd first_push"] p1
  have r1: "tags (snd first_push) (resourceRepoPath main_client ''default'' ''web-server'')
              ''latest'' =
            Some (resource_manifest ''default'' ''web-server'' ''v1770731425''
                    ''2026-02-10T13:50:25Z'' ''size: medium'')"
    by (simp add: c)
  from push_writes_version_and_latest
         [of main_client "push_at 1770731500" "''default''" "''web-server''" _
             "snd first_push" _ "''v1770731500''" "snd tombstone_push"] p2
  have r2: "tags (snd tombstone_push) (resourceRepoPath main_client ''default'' ''web-server'')
              ''latest'' =
            Some (tombstone_manifest ''default'' ''web-server'' ''v1770731500''
                    ''2026-02-10T13:50:25Z'')"
    by (simp add: c)
  show ?thesis using p1 p2 r1 r2 by simp
qed

text \<open>
  C8 as stated fails: the tag is derived from the clock in seconds, so a second
  publication of the same resource within the same second writes the same version tag
  again. After the first push the tag holds the first manifest, after the second push it
  holds the second one.
\<close>

theorem version_tag_overwritten:
  "\<not> isl (fst first_push) \<and> \<not> isl (fst second_push) \<and>
   ''v1770731425'' \<noteq> ''latest'' \<and>
   tag_contents (snd first_push) ''gitops-squared/resources/default/web-server'' ''v1770731425''
     = Some [''size: medium''] \<and>
   tag_contents (snd second_push) ''gitops-squared/resources/default/web-server'' ''v1770731425''
     = Some [''size: large'']"
  by (simp add: second_push_eq first_push_eq tag_contents_def tags_put_tag resource_manifest_def)

section \<open>Restoring twice\<close>

text \<open>
  C5. Running \<open>Restore\<close> a second time, directly on the state the first run left and in
  the same environment (the registry answers each listing and each pull as before),
  gives the same catalog index as the first run. The only thing the first run writes to
  the registry is the catalog artifact, which is neither listed as a resource nor read
  by any pull.
\<close>

theorem Restore_idempotent:
  "sv_resources (snd (Restore c cd env (snd (Restore c cd env st)))) =
   sv_resources (snd (Restore c cd env st))"
proof -
  let ?st1 = "snd (Restore c cd env st)"
  have l: "ListResourceRepos c (re_list_fault env) (sv_registry ?st1) =
           ListResourceRepos c (re_list_fault env) (sv_registry st)"
    using Restore_registry [of c cd env st] by (auto simp add: ListResourceRepos_put_catalog)
  have r: "restore_loop c (re_pull_fault env) (sv_registry ?st1) repos acc =
           restore_loop c (re_pull_fault env) (sv_registry st) repos acc" for repos acc
    using Restore_registry [of c cd env st] by (auto simp add: restore_loop_put_catalog)
  show ?thesis
  proof (cases "ListResourceRepos c (re_list_fault env) (sv_registry st)")
    case (Inl e)
    then show ?thesis by (simp add: Restore_resources [of c cd env ?st1] l)
  next
    case (Inr repos)
    then show ?thesis
      by (simp add: Restore_resources [of c cd env ?st1] l r)
         (simp add: Restore_resources restore_loop_idem)
  qed
qed

section \<open>Restore only adds\<close>

text \<open>
  C9. \<open>Restore\<close> never removes an entry of the catalog index: a key present before is
  present afterwards. If, for every way of reading the key as namespace and name, the
  pull of that resource fails (as it does when the registry has no such repository or
  tag) or returns a version marked deleted, the entry keeps its bytes.
\<close>

theorem Restore_additive:
  assumes "sv_resources st k = Some b"
  shows "sv_resources (snd (Restore c cd env st)) k \<noteq> None \<and>
         ((\<forall>ns name. k = ns @ ''/'' @ name \<longrightarrow>
             (case PullResource c (re_pull_fault env ns name) ns name ''latest'' (sv_registry st) of
                Inl e \<Rightarrow> True
              | Inr (m, ann) \<Rightarrow> ann AnnotationResourceDeleted = Some ''true'')) \<longrightarrow>
          sv_resources (snd (Restore c cd env st)) k = Some b)"
proof (cases "ListResourceRepos c (re_list_fault env) (sv_registry st)")
  case (Inl e)
  then show ?thesis using assms by (simp add: Restore_resources)
next
  case (Inr repos)
  have 1: "fst (restore_loop c (re_pull_fault env) (sv_registry st) repos (sv_resources st, 0)) k
             \<noteq> None"
    using assms by (rule restore_loop_keeps)
  have 2: "fst (restore_loop c (re_pull_fault env) (sv_registry st) repos (sv_resources st, 0)) k
             = Some b"
    if h: "\<forall>ns name. k = ns @ ''/'' @ name \<longrightarrow>
             (case PullResource c (re_pull_fault env ns name) ns name ''latest'' (sv_registry st) of
                Inl e \<Rightarrow> True
              | Inr (m, ann) \<Rightarrow> ann AnnotationResourceDeleted = Some ''true'')"
  proof -
    have "\<forall>repo \<in> set repos. \<forall>v.
            restored_entry c (re_pull_fault env) (sv_registry st) repo \<noteq> Some (k, v)"
    proof (intro ballI allI notI)
      fix repo v
      assume e: "restored_entry c (re_pull_fault env) (sv_registry st) repo = Some (k, v)"
      from restored_entry_SomeD [OF e] h show False by fastforce
    qed
    then show ?thesis using assms by (simp add: restore_loop_frame)
  qed
  show ?thesis using Inr 1 2 by (simp add: Restore_resources)
qed

theorem Restore_additive_witness:
  "sv_resources ghost_server ''default/ghost'' = Some ''kind: Ghost'' \<and>
   sv_resources (snd (Restore main_client plain_codec (restore_ok []) ghost_server))
     ''default/ghost'' = Some ''kind: Ghost''"
proof -
  have h: "sv_resources ghost_server ''default/ghost'' = Some ''kind: Ghost''"
    by (simp add: ghost_server_def)
  have p: "\<forall>ns name. ''default/ghost'' = ns @ ''/'' @ name \<longrightarrow>
             (case PullResource main_client (re_pull_fault (restore_ok []) ns name) ns name
                     ''latest'' (sv_registry ghost_server) of
                Inl e \<Rightarrow> True
              | Inr (m, ann) \<Rightarrow> ann AnnotationResourceDeleted = Some ''true'')"
    by (simp add: PullResource_def ghost_server_def empty_registry_def restore_ok_def)
  show ?thesis
    using h p Restore_additive [OF h, of main_client plain_codec "restore_ok []"] by blast
qed

section \<open>Malformed paths and failing pulls during Restore\<close>

text \<open>
  C7, as the code has it. A listed repository path under the resource prefix whose
  remainder is a single segment is left out of the listing, which goes on with the other
  paths. A remainder with a separator is cut at its first separator only: the part before
  it is the namespace and everything after it the name, so a remainder of three or more
  segments is listed, its name holding the further separators. A resource whose pull
  fails is skipped by the loop, which goes on with the state it had. Whatever happens to
  the other repositories, a listed resource whose pull succeeds and is not marked deleted
  is in the catalog index after \<open>Restore\<close>, with the bytes pulled.
\<close>

theorem Restore_skips:
  "(HasPrefix r (repoPrefix c @ ''/'') \<and>
    length (segments (TrimPrefix r (repoPrefix c @ ''/''))) = 1 \<longrightarrow>
      collect_repos c (xs @ r # ys) = collect_repos c (xs @ ys)) \<and>
   (CHR ''/'' \<notin> set ns \<longrightarrow>
      collect_repos c (xs @ resourceRepoPath c ns name # ys) =
        collect_repos c xs @
        \<lparr>info_Repository = resourceRepoPath c ns name, info_Namespace = ns, info_Name = name,
         info_Digest = [], info_Version = []\<rparr> # collect_repos c ys) \<and>
   (PullResource c (pf (info_Namespace repo) (info_Name repo)) (info_Namespace repo)
      (info_Name repo) ''latest'' reg = Inl e \<longrightarrow>
      restore_loop c pf reg (repo # repos) acc = restore_loop c pf reg repos acc) \<and>
   (ListResourceRepos c (re_list_fault env) (sv_registry st) = Inr listed \<and>
    good \<in> set listed \<and>
    (case PullResource c (re_pull_fault env (info_Namespace good) (info_Name good))
            (info_Namespace good) (info_Name good) ''latest'' (sv_registry st) of
       Inl e \<Rightarrow> False
     | Inr (m', ann) \<Rightarrow> m' = m \<and> ann AnnotationResourceDeleted \<noteq> Some ''true'') \<longrightarrow>
      sv_resources (snd (Restore c cd env st)) (info_Namespace good @ ''/'' @ info_Name good)
        = Some m)"
proof (intro conjI impI)
  assume "HasPrefix r (repoPrefix c @ ''/'') \<and>
          length (segments (TrimPrefix r (repoPrefix c @ ''/''))) = 1"
  then have "collect_repos c (r # ys) = collect_repos c ys"
    using collect_repos_single by blast
  then show "collect_repos c (xs @ r # ys) = collect_repos c (xs @ ys)"
    by (simp only: collect_repos_append)
next
  assume "CHR ''/'' \<notin> set ns"
  then have "collect_repos c (resourceRepoPath c ns name # ys) =
        \<lparr>info_Repository = resourceRepoPath c ns name, info_Namespace = ns, info_Name = name,
         info_Digest = [], info_Version = []\<rparr> # collect_repos c ys"
    by (rule collect_repos_split)
  then show "collect_repos c (xs @ resourceRepoPath c ns name # ys) =
        collect_repos c xs @
        \<lparr>info_Repository = resourceRepoPath c ns name, info_Namespace = ns, info_Name = name,
         info_Digest = [], info_Version = []\<rparr> # collect_repos c ys"
    by (simp only: collect_repos_append)
next
  assume "PullResource c (pf (info_Namespace repo) (info_Name repo)) (info_Namespace repo)
            (info_Name repo) ''latest'' reg = Inl e"
  then show "restore_loop c pf reg (repo # repos) acc = restore_loop c pf reg repos acc"
    by (cases acc) simp
next
  assume a: "ListResourceRepos c (re_list_fault env) (sv_registry st) = Inr listed \<and>
    good \<in> set listed \<and>
    (case PullResource c (re_pull_fault env (info_Namespace good) (info_Name good))
            (info_Namespace good) (info_Name good) ''latest'' (sv_registry st) of
       Inl e \<Rightarrow> False
     | Inr (m', ann) \<Rightarrow> m' = m \<and> ann AnnotationResourceDeleted \<noteq> Some ''true'')"
  then have "restored_entry c (re_pull_fault env) (sv_registry st) good =
               Some (info_Namespace good @ ''/'' @ info_Name good, m)"
    by (auto simp add: restored_entry_def split: sum.splits)
  with a show "sv_resources (snd (Restore c cd env st))
                 (info_Namespace good @ ''/'' @ info_Name good) = Some m"
    using Restore_sets_listed by blast
qed

theorem Restore_skips_witness:
  "HasPrefix ''gitops-squared/resources/orphan'' (repoPrefix main_client @ ''/'') \<and>
   length (segments (TrimPrefix ''gitops-squared/resources/orphan''
                       (repoPrefix main_client @ ''/''))) = 1 \<and>
   collect_repos main_client
     ([] @ ''gitops-squared/resources/orphan'' # [''gitops-squared/resources/default/web-server''])
     = collect_repos main_client ([] @ [''gitops-squared/resources/default/web-server'']) \<and>
   CHR ''/'' \<notin> set ''default'' \<and>
   collect_repos main_client ([] @ resourceRepoPath main_client ''default'' ''a/b'' # []) =
     collect_repos main_client [] @
     \<lparr>info_Repository = resourceRepoPath main_client ''default'' ''a/b'',
      info_Namespace = ''default'', info_Name = ''a/b'', info_Digest = [],
      info_Version = []\<rparr> # collect_repos main_client [] \<and>
   PullResource main_client None ''default'' ''broken'' ''latest'' (sv_registry patchy_server)
     = Inl ErrFetchManifest \<and>
   restore_loop main_client (\<lambda>_ _. None) (sv_registry patchy_server) (broken_info # [web_info])
     (Map.empty, 0)
     = restore_loop main_client (\<lambda>_ _. None) (sv_registry patchy_server) [web_info]
         (Map.empty, 0) \<and>
   ListResourceRepos main_client None (sv_registry patchy_server) = Inr [broken_info, web_info] \<and>
   sv_resources (snd (Restore main_client plain_codec (restore_ok []) patchy_server))
     ''default/web-server'' = Some ''size: medium''"
proof -
  have h1: "HasPrefix ''gitops-squared/resources/orphan'' (repoPrefix main_client @ ''/'') \<and>
            length (segments (TrimPrefix ''gitops-squared/resources/orphan''
                                (repoPrefix main_client @ ''/''))) = 1"
    by (simp add: main_client_def NewClient_def HasPrefix_def TrimPrefix_def segments_def)
  have h0: "CHR ''/'' \<notin> set ''default''" by simp
  have h2: "PullResource main_client ((\<lambda>_ _. None) (info_Namespace broken_info)
              (info_Name broken_info)) (info_Namespace broken_info) (info_Name broken_info)
              ''latest'' (sv_registry patchy_server) = Inl ErrFetchManifest"
    using patchy_pull_broken by (simp add: broken_info_def)
  have h3: "ListResourceRepos main_client (re_list_fault (restore_ok []))
              (sv_registry patchy_server) = Inr [broken_info, web_info] \<and>
            web_info \<in> set [broken_info, web_info] \<and>
            (case PullResource main_client
                    (re_pull_fault (restore_ok []) (info_Namespace web_info) (info_Name web_info))
                    (info_Namespace web_info) (info_Name web_info) ''latest''
                    (sv_registry patchy_server) of
               Inl e \<Rightarrow> False
             | Inr (m', ann) \<Rightarrow>
                 m' = ''size: medium'' \<and> ann AnnotationResourceDeleted \<noteq> Some ''true'')"
    using patchy_listing patchy_pull_web by (simp add: restore_ok_def web_info_def)
  note t = Restore_skips
    [where r = "''gitops-squared/resources/orphan''" and c = main_client and xs = "[]"
       and ys = "[''gitops-squared/resources/default/web-server'']"
       and pf = "\<lambda>_ _. None" and repo = broken_info and reg = "sv_registry patchy_server"
       and e = ErrFetchManifest and repos = "[web_info]" and acc = "(Map.empty, 0)"
       and env = "restore_ok []" and st = patchy_server and listed = "[broken_info, web_info]"
       and good = web_info and m = "''size: medium''" and cd = plain_codec]
  note u = Restore_skips
    [where c = main_client and xs = "[]" and ys = "[]" and ns = "''default''"
       and name = "''a/b''"]
  from t h1 have c1: "collect_repos main_client
     ([] @ ''gitops-squared/resources/orphan'' # [''gitops-squared/resources/default/web-server''])
     = collect_repos main_client ([] @ [''gitops-squared/resources/default/web-server''])"
    by blast
  from u h0 have c0: "collect_repos main_client
       ([] @ resourceRepoPath main_client ''default'' ''a/b'' # []) =
     collect_repos main_client [] @
     \<lparr>info_Repository = resourceRepoPath main_client ''default'' ''a/b'',
      info_Namespace = ''default'', info_Name = ''a/b'', info_Digest = [],
      info_Version = []\<rparr> # collect_repos main_client []"
    by blast
  from t h2 have c2: "restore_loop main_client (\<lambda>_ _. None) (sv_registry patchy_server)
       (broken_info # [web_info]) (Map.empty, 0)
     = restore_loop main_client (\<lambda>_ _. None) (sv_registry patchy_server) [web_info]
         (Map.empty, 0)"
    by blast
  from t h3 have c3: "sv_resources (snd (Restore main_client plain_codec (restore_ok [])
       patchy_server)) (info_Namespace web_info @ ''/'' @ info_Name web_info)
     = Some ''size: medium''"
    by blast
  have c3': "sv_resources (snd (Restore main_client plain_codec (restore_ok [])
       patchy_server)) ''default/web-server'' = Some ''size: medium''"
    using c3 by (simp add: web_info_def)
  from h1 c1 h0 c0 patchy_pull_broken c2 patchy_listing c3'
  show ?thesis by (intro conjI) blast+
qed

text \<open>
  C7 as stated fails for a remainder of more than two segments: the path of a resource
  published under the name \<open>a/b\<close> has the remainder \<open>default/a/b\<close>, three segments,
  and is not skipped. The listing gives it the namespace \<open>default\<close> and the name
  \<open>a/b\<close>, and \<open>Restore\<close> puts it into the catalog index.
\<close>

theorem three_segments_listed:
  "HasPrefix ''gitops-squared/resources/default/a/b'' (repoPrefix main_client @ ''/'') \<and>
   segments (TrimPrefix ''gitops-squared/resources/default/a/b'' (repoPrefix main_client @ ''/''))
     = [''default'', ''a'', ''b''] \<and>
   ListResourceRepos main_client None (sv_registry slashed_server) =
     Inr [\<lparr>info_Repository = ''gitops-squared/resources/default/a/b'',
            info_Namespace = ''default'', info_Name = ''a/b'', info_Digest = [],
            info_Version = []\<rparr>] \<and>
   sv_resources (snd (Restore main_client plain_codec (restore_ok []) slashed_server))
     ''default/a/b'' = Some ''kind: X''"
proof -
  have 1: "HasPrefix ''gitops-squared/resources/default/a/b'' (repoPrefix main_client @ ''/'')"
    by (simp add: main_client_def NewClient_def HasPrefix_def)
  have 2: "segments (TrimPrefix ''gitops-squared/resources/default/a/b''
                       (repoPrefix main_client @ ''/'')) = [''default'', ''a'', ''b'']"
    by (simp add: main_client_def NewClient_def HasPrefix_def TrimPrefix_def segments_def)
  have 3: "ListResourceRepos main_client None (sv_registry slashed_server) =
     Inr [\<lparr>info_Repository = ''gitops-squared/resources/default/a/b'',
            info_Namespace = ''default'', info_Name = ''a/b'', info_Digest = [],
            info_Version = []\<rparr>]"
    by (simp add: ListResourceRepos_def slashed_registry put_tag_def empty_registry_def
          main_client_def NewClient_def HasPrefix_def TrimPrefix_def SplitN2_def Let_def)
  from 1 2 3 slashed_restored show ?thesis by (intro conjI)
qed

section \<open>Tombstones\<close>

text \<open>
  C4. After a successful \<open>DeleteResource\<close> the catalog index has no entry for the
  resource; the latest version in the registry is the tombstone, whose annotations carry
  the deletion mark; and \<open>Restore\<close>, run on the resulting state or on that registry with
  any index that lacks the entry (such as the empty index of a fresh process), leaves the
  entry absent.
\<close>

theorem retract_excludes:
  assumes "DeleteResource c cd env name st = (resp, st')" and "status resp = 200"
  shows "cm_Get defaultNamespace name (sv_resources st') = None \<and>
         (case PullResource c None defaultNamespace name ''latest'' (sv_registry st') of
            Inl e \<Rightarrow> False
          | Inr (b, ann) \<Rightarrow> ann AnnotationResourceDeleted = Some ''true'') \<and>
         cm_Get defaultNamespace name (sv_resources (snd (Restore c cd renv st'))) = None \<and>
         (cm_Get defaultNamespace name rs = None \<longrightarrow>
          cm_Get defaultNamespace name
            (sv_resources (snd (Restore c cd renv (st'\<lparr>sv_resources := rs\<rparr>)))) = None)"
proof -
  from DeleteResource_success [OF assms] obtain d v reg where
    p: "PushTombstone c (de_push env) defaultNamespace name (sv_registry st) = (Inr (d, v), reg)"
    and st': "st' = snd (cm_PushCatalog c cd (de_catalog env)
                   \<lparr>sv_registry = reg,
                    sv_resources = cm_Delete defaultNamespace name (sv_resources st)\<rparr>)"
    by blast
  let ?m = "tombstone_manifest defaultNamespace name v (pe_created (de_push env))"
  have "tags reg (resourceRepoPath c defaultNamespace name) ''latest'' = Some ?m"
    by (simp add: PushTombstone_success(3) [OF p] tags_put_tag)
  then have t: "tags (sv_registry st') (resourceRepoPath c defaultNamespace name) ''latest''
                  = Some ?m"
    by (simp add: st' cm_PushCatalog_tags)
  have g: "cm_Get defaultNamespace name (sv_resources st') = None"
    by (simp add: st' cm_PushCatalog_resources cm_Get_def cm_Delete_def)
  have pull: "case PullResource c None defaultNamespace name ''latest'' (sv_registry st') of
            Inl e \<Rightarrow> False
          | Inr (b, ann) \<Rightarrow> ann AnnotationResourceDeleted = Some ''true''"
    using tombstone_pull_ok [OF t] tombstone_pull [OF t] by (auto split: sum.splits)
  have sl: "CHR ''/'' \<notin> set defaultNamespace" by simp
  have r: "cm_Get defaultNamespace name (sv_resources (snd (Restore c cd renv (st'\<lparr>sv_resources := rs'\<rparr>))))
             = cm_Get defaultNamespace name rs'" for rs'
    unfolding cm_Get_def
    using Restore_tombstoned [of "st'\<lparr>sv_resources := rs'\<rparr>" c defaultNamespace name v
            "pe_created (de_push env)" cd renv] t sl
    by simp
  have r0: "cm_Get defaultNamespace name (sv_resources (snd (Restore c cd renv st'))) = None"
    using r [of "sv_resources st'"] g by simp
  show ?thesis using g pull r0 r by simp
qed

theorem retract_excludes_witness:
  "status (fst (DeleteResource main_client plain_codec (delete_at 1770731500 []) ''web-server''
                  live_server)) = 200 \<and>
   cm_Get defaultNamespace ''web-server'' (sv_resources live_server) = Some ''size: medium'' \<and>
   cm_Get defaultNamespace ''web-server''
     (sv_resources (snd (DeleteResource main_client plain_codec (delete_at 1770731500 [])
                           ''web-server'' live_server))) = None \<and>
   cm_Get defaultNamespace ''web-server''
     (sv_resources (snd (Restore main_client plain_codec (restore_ok [])
        (snd (DeleteResource main_client plain_codec (delete_at 1770731500 []) ''web-server''
                live_server))))) = None"
proof -
  let ?d = "DeleteResource main_client plain_codec (delete_at 1770731500 []) ''web-server''
              live_server"
  have h1: "?d = (fst ?d, snd ?d)" by simp
  have h2: "status (fst ?d) = 200"
    by (simp add: DeleteResource_def live_server_def cm_Get_def delete_at_def
          PushTombstone_no_fault push_at_def Let_def split: prod.splits)
  have g: "cm_Get defaultNamespace ''web-server'' (sv_resources live_server)
             = Some ''size: medium''"
    by (simp add: cm_Get_def live_server_def)
  show ?thesis
    using h2 g retract_excludes [OF h1 h2, of "restore_ok []" Map.empty] by simp
qed

section \<open>The catalog after Restore\<close>

text \<open>
  C6, as the code has it. Once the listing of repositories has succeeded, \<open>Restore\<close>
  ends with \<open>PushCatalog\<close> on the index it has built, whatever the number of resources
  restored, zero included; when the archive is built and the push meets no failure, the
  catalog repository has under \<open>latest\<close> the manifest packed around that archive, and
  \<open>Restore\<close> returns no error.
\<close>

theorem Restore_republishes:
  assumes "ListResourceRepos c (re_list_fault env) (sv_registry st) = Inr repos"
  shows "Restore c cd env st =
           cm_PushCatalog c cd (re_catalog env)
             (st\<lparr>sv_resources :=
                  fst (restore_loop c (re_pull_fault env) (sv_registry st) repos
                         (sv_resources st, 0))\<rparr>) \<and>
         (buildCatalogTarGz cd
            (range_map (ce_order (re_catalog env))
               (fst (restore_loop c (re_pull_fault env) (sv_registry st) repos
                       (sv_resources st, 0)))) = Inr tgz \<and>
          ce_fault (re_catalog env) = None \<longrightarrow>
            fst (Restore c cd env st) = None \<and>
            tags (sv_registry (snd (Restore c cd env st))) ''gitops-squared/catalog'' ''latest'' =
              Some (catalog_manifest (ce_created (re_catalog env)) tgz))"
proof -
  let ?rs = "fst (restore_loop c (re_pull_fault env) (sv_registry st) repos (sv_resources st, 0))"
  have 1: "Restore c cd env st =
             cm_PushCatalog c cd (re_catalog env) (st\<lparr>sv_resources := ?rs\<rparr>)"
    using assms by (simp add: Restore_def split: prod.splits)
  have 2: "fst (Restore c cd env st) = None \<and>
           tags (sv_registry (snd (Restore c cd env st))) ''gitops-squared/catalog'' ''latest'' =
             Some (catalog_manifest (ce_created (re_catalog env)) tgz)"
    if "buildCatalogTarGz cd (range_map (ce_order (re_catalog env)) ?rs) = Inr tgz"
      and "ce_fault (re_catalog env) = None"
    unfolding 1
    using cm_PushCatalog_no_fault [of cd "re_catalog env" "st\<lparr>sv_resources := ?rs\<rparr>" tgz c] that
    by (simp add: tags_put_tag)
  show ?thesis using 1 2 by blast
qed

theorem Restore_republishes_witness:
  "ListResourceRepos main_client (re_list_fault (restore_ok [])) (sv_registry empty_server)
     = Inr [] \<and>
   snd (restore_loop main_client (re_pull_fault (restore_ok [])) (sv_registry empty_server) []
          (sv_resources empty_server, 0)) = 0 \<and>
   fst (Restore main_client plain_codec (restore_ok []) empty_server) = None \<and>
   tag_contents (sv_registry (snd (Restore main_client plain_codec (restore_ok []) empty_server)))
     ''gitops-squared/catalog'' ''latest'' =
     Some [''manifests/kustomization.yaml'' @ [CHR 0x0A] @ buildKustomization []]"
proof -
  have l: "ListResourceRepos main_client (re_list_fault (restore_ok []))
             (sv_registry empty_server) = Inr []"
    by (simp add: ListResourceRepos_def restore_ok_def empty_server_def empty_registry_def)
  have b: "buildCatalogTarGz plain_codec
            (range_map (ce_order (re_catalog (restore_ok [])))
               (fst (restore_loop main_client (re_pull_fault (restore_ok []))
                       (sv_registry empty_server) [] (sv_resources empty_server, 0)))) =
           Inr (''manifests/kustomization.yaml'' @ [CHR 0x0A] @ buildKustomization [])
          \<and> ce_fault (re_catalog (restore_ok [])) = None"
    by (simp add: buildCatalogTarGz_def plain_codec_def plain_tar_def catalog_members_def
          range_map_def restore_ok_def catalog_ok_def Let_def)
  from Restore_republishes [OF l, of plain_codec] b
  have "fst (Restore main_client plain_codec (restore_ok []) empty_server) = None \<and>
        tags (sv_registry (snd (Restore main_client plain_codec (restore_ok []) empty_server)))
          ''gitops-squared/catalog'' ''latest'' =
          Some (catalog_manifest (ce_created (re_catalog (restore_ok [])))
                  (''manifests/kustomization.yaml'' @ [CHR 0x0A] @ buildKustomization []))"
    by blast
  then show ?thesis using l by (simp add: tag_contents_def catalog_manifest_def)
qed

text \<open>
  C6 as stated fails: when the listing of repositories fails, \<open>Restore\<close> returns that
  error before the loop and before \<open>PushCatalog\<close>. Started against an empty registry that
  cannot be listed, it leaves the registry without a catalog artifact.
\<close>

theorem Restore_listing_failure_no_catalog:
  "fst (Restore main_client plain_codec restore_unreachable empty_server) = Some ErrListRepos \<and>
   tags (sv_registry (snd (Restore main_client plain_codec restore_unreachable empty_server)))
     ''gitops-squared/catalog'' ''latest'' = None"
  by (simp add: Restore_def ListResourceRepos_def restore_unreachable_def empty_server_def
        empty_registry_def)

section \<open>Deriving the index from the registry\<close>

text \<open>
  C1, as the code has it. \<open>CreateResource\<close> pushes the YAML generated with the
  placeholder version \<open>pending\<close> and then stores in the index the YAML generated again
  with the version tag the push returned. After a successful publication, and after any
  further events that are not requests about the same resource (requests about other
  resources, failed or not, and restarts), a restart whose listing and whose pull of
  that resource succeed runs \<open>Restore\<close> on the empty index and yields an entry for the
  resource whose bytes are the bytes pushed to the registry, whereas the index after
  the publication held the bytes generated with the version tag.
\<close>

theorem publish_then_restore:
  assumes "CreateResource c cd env (Some req) st = (resp, st')" and "status resp = 201"
    and "\<forall>e \<in> set es. \<not> concerns (req_Name req) e"
    and "re_list_fault renv = None"
    and "re_pull_fault renv defaultNamespace (req_Name req) = None"
  shows "map_option Inr
           (sv_resources (handle c cd (Restart renv) (serve c cd es st'))
              (defaultNamespace @ ''/'' @ req_Name req)) =
           Some (fst (ToKubernetesYAML cd (cr_pushed_at1 env) req defaultNamespace ''pending'')) \<and>
         map_option Inr (sv_resources st' (defaultNamespace @ ''/'' @ req_Name req)) =
           Some (fst (ToKubernetesYAML cd (cr_pushed_at2 env)
                        (snd (ToKubernetesYAML cd (cr_pushed_at1 env) req defaultNamespace
                                ''pending''))
                        defaultNamespace (''v'' @ Sprintf_d (pe_now (cr_push env)))))"
proof -
  let ?path = "resourceRepoPath c defaultNamespace (req_Name req)"
  let ?s = "(serve c cd es st')\<lparr>sv_resources := Map.empty\<rparr>"
  have u: "untouched ?path (sv_registry st') (sv_registry (serve c cd es st'))"
    using assms(3) by (rule untouched_serve)
  have l: "?path \<in> set (repositories (sv_registry ?s))"
    using u published_entries(1) [OF assms(1,2)] by (simp add: untouched_def)
  have t: "tags (sv_registry ?s) ?path ''latest'' = tags (sv_registry st') ?path ''latest''"
    using u by (simp add: untouched_def)
  show ?thesis
    using published_entries(3) [OF assms(1,2) t l assms(4,5), of cd]
      published_entries(2) [OF assms(1,2)]
    by simp
qed

theorem publish_then_restore_witness:
  "status (fst (CreateResource main_client plain_codec (create_at 1770731425 [])
                  (Some web_server) empty_server)) = 201 \<and>
   map_option Inr
     (sv_resources
        (handle main_client plain_codec (Restart (restore_ok []))
           (serve main_client plain_codec [Create (create_at 1770731500 []) (Some app_db)]
              created_server))
        ''default/web-server'') =
     Some (fst (ToKubernetesYAML plain_codec ''2026-02-10T13:50:25Z'' web_server
                  defaultNamespace ''pending''))"
proof -
  have h3: "\<forall>e \<in> set [Create (create_at 1770731500 []) (Some app_db)].
              \<not> concerns (req_Name web_server) e"
    by (simp add: app_db_def web_server_def)
  have h4: "re_list_fault (restore_ok []) = None"
    and h5: "re_pull_fault (restore_ok []) defaultNamespace (req_Name web_server) = None"
    by (simp_all add: restore_ok_def)
  from publish_then_restore [OF created_server_eq created_server_status h3 h4 h5]
  show ?thesis
    using created_server_status by (simp add: create_at_def web_server_def)
qed

text \<open>
  C1 as stated fails: after one publication on an empty registry and a restart, the
  entry \<open>Restore\<close> builds is not the entry the index held after the publication. The
  first carries the version \<open>pending\<close>, the second the version tag of the push.
\<close>

theorem restored_bytes_differ:
  "status (fst (CreateResource main_client plain_codec (create_at 1770731425 [])
                  (Some web_server) empty_server)) = 201 \<and>
   map_option Inr (sv_resources created_server ''default/web-server'') =
     Some (fst (ToKubernetesYAML plain_codec ''2026-02-10T13:50:25Z''
                  (snd (ToKubernetesYAML plain_codec ''2026-02-10T13:50:25Z'' web_server
                          defaultNamespace ''pending''))
                  defaultNamespace ''v1770731425'')) \<and>
   map_option Inr (sv_resources restarted_server ''default/web-server'') =
     Some (fst (ToKubernetesYAML plain_codec ''2026-02-10T13:50:25Z'' web_server
                  defaultNamespace ''pending'')) \<and>
   sv_resources restarted_server ''default/web-server'' \<noteq>
   sv_resources created_server ''default/web-server''"
proof -
  let ?s = "created_server\<lparr>sv_resources := Map.empty\<rparr>"
  have l: "resourceRepoPath main_client defaultNamespace (req_Name web_server)
             \<in> set (repositories (sv_registry ?s))"
    using published_entries(1) [OF created_server_eq created_server_status] by simp
  have f: "re_list_fault (restore_ok []) = None"
    "re_pull_fault (restore_ok []) defaultNamespace (req_Name web_server) = None"
    by (simp_all add: restore_ok_def)
  have a: "map_option Inr (sv_resources created_server ''default/web-server'') =
     Some (fst (ToKubernetesYAML plain_codec ''2026-02-10T13:50:25Z''
                  (snd (ToKubernetesYAML plain_codec ''2026-02-10T13:50:25Z'' web_server
                          defaultNamespace ''pending''))
                  defaultNamespace ''v1770731425''))"
    using published_entries(2) [OF created_server_eq created_server_status]
    by (simp add: create_at_def push_at_def web_server_def Sprintf_d_demo)
  have b: "map_option Inr (sv_resources restarted_server ''default/web-server'') =
     Some (fst (ToKubernetesYAML plain_codec ''2026-02-10T13:50:25Z'' web_server
                  defaultNamespace ''pending''))"
    using published_entries(3) [OF created_server_eq created_server_status _ l f, of plain_codec]
    by (simp add: restarted_server_def create_at_def web_server_def)
  have ne: "sv_resources restarted_server ''default/web-server'' \<noteq>
            sv_resources created_server ''default/web-server''"
  proof
    assume e: "sv_resources restarted_server ''default/web-server'' =
               sv_resources created_server ''default/web-server''"
    have "Some (fst (ToKubernetesYAML plain_codec ''2026-02-10T13:50:25Z'' web_server
                  defaultNamespace ''pending'')) =
          map_option Inr (sv_resources restarted_server ''default/web-server'')"
      by (rule b [symmetric])
    also have "\<dots> = map_option Inr (sv_resources created_server ''default/web-server'')"
      by (simp only: e)
    also note a
    finally have "fst (ToKubernetesYAML plain_codec ''2026-02-10T13:50:25Z'' web_server
                  defaultNamespace ''pending'') =
        fst (ToKubernetesYAML plain_codec ''2026-02-10T13:50:25Z''
                  (snd (ToKubernetesYAML plain_codec ''2026-02-10T13:50:25Z'' web_server
                          defaultNamespace ''pending''))
                  defaultNamespace ''v1770731425'')"
      by (simp only: option.inject)
    then show False by (rule notE [OF pending_yaml])
  qed
  from created_server_status a b ne show ?thesis by (intro conjI)
qed

section \<open>The catalog archive\<close>

text \<open>
  C2, as the code has it. \<open>buildCatalogTarGz\<close> hands the archive writer one member for
  each entry, named \<open>manifests/\<close> followed by the key with every \<open>/\<close> replaced by \<open>-\<close>
  and by \<open>.yaml\<close>, holding the entry's bytes, and after them one member
  \<open>manifests/kustomization.yaml\<close>. For keys without a line break that file lists exactly
  the entry file names, in the order in which the iteration over the map yielded the
  entries; no entry whose key contains \<open>/\<close> is named like it; with no entries it holds
  the empty list marker.
\<close>

theorem catalog_archive:
  "buildCatalogTarGz cd kvs = tar_gzip cd (catalog_members kvs) \<and>
   length (catalog_members kvs) = length kvs + 1 \<and>
   map tf_Name (butlast (catalog_members kvs)) =
     map (\<lambda>(k, b). ''manifests/'' @ ReplaceAll_slash k @ ''.yaml'') kvs \<and>
   map tf_Body (butlast (catalog_members kvs)) = map snd kvs \<and>
   tf_Name (last (catalog_members kvs)) = ''manifests/kustomization.yaml'' \<and>
   ((\<forall>k \<in> fst ` set kvs. CHR ''/'' \<in> set k) \<longrightarrow>
      ''manifests/kustomization.yaml'' \<notin> set (map tf_Name (butlast (catalog_members kvs)))) \<and>
   ((\<forall>k \<in> fst ` set kvs. CHR 0x0A \<notin> set k) \<longrightarrow>
      listed_resources (tf_Body (last (catalog_members kvs))) =
        map (\<lambda>(k, b). ReplaceAll_slash k @ ''.yaml'') kvs) \<and>
   (kvs = [] \<longrightarrow>
      split_lines [] (tf_Body (last (catalog_members kvs))) =
        [''apiVersion: kustomize.config.k8s.io/v1beta1'', ''kind: Kustomization'',
         ''resources:'', ''  []''])"
proof (intro conjI impI)
  show "buildCatalogTarGz cd kvs = tar_gzip cd (catalog_members kvs)"
    by (simp add: buildCatalogTarGz_def)
  show "length (catalog_members kvs) = length kvs + 1"
    by (simp add: catalog_members_eq)
  show names: "map tf_Name (butlast (catalog_members kvs)) =
     map (\<lambda>(k, b). ''manifests/'' @ ReplaceAll_slash k @ ''.yaml'') kvs"
    by (simp add: catalog_members_eq comp_def case_prod_beta)
  show "map tf_Body (butlast (catalog_members kvs)) = map snd kvs"
    by (simp add: catalog_members_eq comp_def case_prod_beta)
  show "tf_Name (last (catalog_members kvs)) = ''manifests/kustomization.yaml''"
    by (simp add: catalog_members_eq)
  show "''manifests/kustomization.yaml'' \<notin> set (map tf_Name (butlast (catalog_members kvs)))"
    if "\<forall>k \<in> fst ` set kvs. CHR ''/'' \<in> set k"
  proof
    assume "''manifests/kustomization.yaml'' \<in> set (map tf_Name (butlast (catalog_members kvs)))"
    then obtain k b where "(k, b) \<in> set kvs"
      "''manifests/'' @ ReplaceAll_slash k @ ''.yaml'' = ''manifests/kustomization.yaml''"
      unfolding names by auto
    with that entry_name_not_kustomization [of k] show False by force
  qed
  show "listed_resources (tf_Body (last (catalog_members kvs))) =
        map (\<lambda>(k, b). ReplaceAll_slash k @ ''.yaml'') kvs"
    if "\<forall>k \<in> fst ` set kvs. CHR 0x0A \<notin> set k"
  proof -
    have "\<forall>f \<in> set (map (\<lambda>(k, b). ReplaceAll_slash k @ ''.yaml'') kvs). CHR 0x0A \<notin> set f"
      using that by (force simp add: ReplaceAll_slash_def)
    then show ?thesis
      by (simp add: catalog_members_eq listed_resources_kustomization)
  qed
  show "split_lines [] (tf_Body (last (catalog_members kvs))) =
        [''apiVersion: kustomize.config.k8s.io/v1beta1'', ''kind: Kustomization'',
         ''resources:'', ''  []'']"
    if "kvs = []"
    using split_lines_kustomization [of "[]"] that by (simp add: catalog_members_eq)
qed

theorem catalog_archive_witness:
  "length (catalog_members demo_entries) = 3 \<and>
   map tf_Name (catalog_members demo_entries) =
     [''manifests/default-web-server.yaml'', ''manifests/default-app-db.yaml'',
      ''manifests/kustomization.yaml''] \<and>
   listed_resources (tf_Body (last (catalog_members demo_entries))) =
     [''default-web-server.yaml'', ''default-app-db.yaml''] \<and>
   split_lines [] (tf_Body (last (catalog_members []))) =
     [''apiVersion: kustomize.config.k8s.io/v1beta1'', ''kind: Kustomization'',
      ''resources:'', ''  []'']"
proof -
  have h1: "\<forall>k \<in> fst ` set demo_entries. CHR ''/'' \<in> set k"
    and h2: "\<forall>k \<in> fst ` set demo_entries. CHR 0x0A \<notin> set k"
    by (simp_all add: demo_entries_def)
  have n: "catalog_members demo_entries \<noteq> []" by (simp add: catalog_members_eq)
  have s: "map tf_Name (catalog_members demo_entries) =
             map tf_Name (butlast (catalog_members demo_entries)) @
             [tf_Name (last (catalog_members demo_entries))]"
    using n by (metis append_butlast_last_id list.simps(8,9) map_append)
  note t = catalog_archive [of plain_codec demo_entries]
  note e = catalog_archive [of plain_codec "[]"]
  from t h1 h2 have
    "length (catalog_members demo_entries) = length demo_entries + 1"
    "map tf_Name (butlast (catalog_members demo_entries)) =
       map (\<lambda>(k, b). ''manifests/'' @ ReplaceAll_slash k @ ''.yaml'') demo_entries"
    "tf_Name (last (catalog_members demo_entries)) = ''manifests/kustomization.yaml''"
    "listed_resources (tf_Body (last (catalog_members demo_entries))) =
       map (\<lambda>(k, b). ReplaceAll_slash k @ ''.yaml'') demo_entries"
    by blast+
  moreover from e have "split_lines [] (tf_Body (last (catalog_members []))) =
     [''apiVersion: kustomize.config.k8s.io/v1beta1'', ''kind: Kustomization'',
      ''resources:'', ''  []'']"
    by blast
  ultimately show ?thesis
    using s by (simp add: demo_entries_def ReplaceAll_slash_def)
qed

text \<open>
  C2 as stated fails: nothing sorts the entries. One map with two keys, iterated in one
  order and in the other, gives two different manifest lists, and the list of the first
  order is not sorted.
\<close>

theorem manifest_list_not_sorted:
  "distinct (map fst demo_entries) \<and>
   map_of (rev demo_entries) = map_of demo_entries \<and>
   listed_resources (tf_Body (last (catalog_members demo_entries))) =
     [''default-web-server.yaml'', ''default-app-db.yaml''] \<and>
   listed_resources (tf_Body (last (catalog_members (rev demo_entries)))) =
     [''default-app-db.yaml'', ''default-web-server.yaml''] \<and>
   \<not> sorted [''default-web-server.yaml'', ''default-app-db.yaml'']"
proof -
  have "map_of (rev demo_entries) = map_of demo_entries"
    by (rule ext) (simp add: demo_entries_def)
  then show ?thesis
    using demo_listed by (simp add: demo_entries_def)
qed

end
